(* ===== verification/Prelude.thy ===== *)
theory Prelude
  imports Main "HOL-Library.Sublist"
begin

text \<open>
  Shared vocabulary of the development: the Python exceptions that the
  underwriting script can raise, the result type that carries them, the
  collection \<open>py_eval\<close> of equations that let the simplifier evaluate the model on
  concrete strings, and generic lemmas on lists that several components use.
\<close>

section \<open>Exceptions and results\<close>

text \<open>
  The exceptions that escape from \<^verbatim>\<open>src/app.py\<close>: \<open>ValueError\<close> from
  \<^verbatim>\<open>int()\<close> and from the truth value of a pandas Series, \<open>KeyError\<close> from a
  missing DataFrame column, \<open>TypeError\<close> from \<^verbatim>\<open>pytesseract\<close> handed the
  \<^verbatim>\<open>None\<close> that \<^verbatim>\<open>cv2.imread\<close> returns for an unreadable file, and
  \<open>TesseractError\<close> for a failure inside the OCR engine.
  None of them is caught anywhere in the script, so each aborts the run.
\<close>

datatype py_error = ValueError | KeyError | TypeError | TesseractError

type_synonym 'a py_result = "py_error + 'a"

named_theorems py_eval "equations that evaluate the Python primitives on literals"

text \<open>
  A Python loop that applies a raising function to each element and appends the
  result stops at the first exception: \<open>map_result\<close>.
\<close>

fun map_result :: "('a \<Rightarrow> 'b py_result) \<Rightarrow> 'a list \<Rightarrow> 'b list py_result" where
  "map_result f [] = Inr []"
| "map_result f (x # xs) =
     (case f x of
        Inl e \<Rightarrow> Inl e
      | Inr y \<Rightarrow> (case map_result f xs of Inl e \<Rightarrow> Inl e | Inr ys \<Rightarrow> Inr (y # ys)))"

text \<open>
  The accumulating loop \<^verbatim>\<open>acc = []; for x in xs: acc.append(f(x))\<close> where
  \<open>f\<close> may raise: \<open>append_loop f xs acc\<close>.
\<close>

fun append_loop :: "('a \<Rightarrow> 'b py_result) \<Rightarrow> 'a list \<Rightarrow> 'b list \<Rightarrow> 'b list py_result" where
  "append_loop f [] acc = Inr acc"
| "append_loop f (x # xs) acc =
     (case f x of Inl e \<Rightarrow> Inl e | Inr y \<Rightarrow> append_loop f xs (acc @ [y]))"

section \<open>Evaluation support\<close>

text \<open>
  \<open>sublist\<close> (Python's \<^verbatim>\<open>in\<close> on strings) and \<open>suffix\<close>
  (\<^verbatim>\<open>str.endswith\<close>) are evaluated through their code equations;
  \<open>char_of\<close> on a numeral through \<open>char_of_eq_iff\<close>.
\<close>

lemma eq_char_of_iff: "c = char_of n \<longleftrightarrow> take_bit 8 n = of_char c"
  by (metis char_of_eq_iff)

lemmas [py_eval] = sublist_code char_of_eq_iff eq_char_of_iff suffix_to_prefix

section \<open>Lists\<close>

lemma takeWhile_dropWhile_hd:
  assumes "dropWhile P xs = y # ys"
  shows "\<not> P y"
  using assms by (induction xs) (auto split: if_splits)

lemma drop_lt_takeWhile:
  assumes "i < length (takeWhile P xs)"
  shows "\<exists>y ys. drop i xs = y # ys \<and> P y"
  using assms
proof (induction xs arbitrary: i)
  case Nil
  then show ?case by simp
next
  case (Cons x xs)
  then show ?case by (cases i) (auto split: if_splits)
qed

lemma drop_length_takeWhile [simp]:
  "drop (length (takeWhile P xs)) xs = dropWhile P xs"
  by (induction xs) auto

lemma take_length_takeWhile [simp]:
  "take (length (takeWhile P xs)) xs = takeWhile P xs"
  by (induction xs) auto

lemma rev_dropWhile_rev_not_last:
  assumes "rev (dropWhile P (rev xs)) = ys" and "ys \<noteq> []"
  shows "\<not> P (last ys)"
proof -
  from assms obtain z zs where "dropWhile P (rev xs) = z # zs"
    by (cases "dropWhile P (rev xs)") auto
  with assms show ?thesis
    using takeWhile_dropWhile_hd by fastforce
qed

lemma list_all_takeWhile [intro]: "list_all P (takeWhile P xs)"
  by (induction xs) auto

lemma set_dropWhile_subset: "set (dropWhile P xs) \<subseteq> set xs"
  by (induction xs) auto

lemma set_takeWhile_subset: "set (takeWhile P xs) \<subseteq> set xs"
  by (induction xs) auto

text \<open>
  Removing the characters of a class at both ends, as \<^verbatim>\<open>str.strip\<close> and
  \<^verbatim>\<open>int()\<close> do, is \<open>rev (dropWhile P (rev (dropWhile P xs)))\<close>.
\<close>

lemma rev_dropWhile_rev_Cons:
  "\<not> P x \<Longrightarrow> rev (dropWhile P (rev xs @ [x])) = x # rev (dropWhile P (rev xs))"
  by (cases "\<forall>y\<in>set xs. P y") (auto simp: dropWhile_append)

lemma trim_hd:
  assumes "rev (dropWhile P (rev (dropWhile P xs))) = y # ys"
  shows "\<not> P y"
proof (cases "dropWhile P xs")
  case Nil
  with assms show ?thesis by simp
next
  case (Cons z zs)
  then have "\<not> P z" using takeWhile_dropWhile_hd by fastforce
  with assms Cons show ?thesis by (simp add: rev_dropWhile_rev_Cons)
qed

lemma trim_id:
  assumes "\<not> P (hd xs)" and "\<not> P (last xs)"
  shows "rev (dropWhile P (rev (dropWhile P xs))) = xs"
proof (cases xs rule: rev_cases)
  case Nil
  then show ?thesis by simp
next
  case (snoc ys y)
  with assms have "dropWhile P xs = xs" by (cases ys) auto
  moreover from snoc assms have "dropWhile P (rev xs) = rev xs" by simp
  ultimately show ?thesis by simp
qed

lemma set_trim: "set (rev (dropWhile P (rev (dropWhile P xs)))) \<subseteq> set xs"
  using set_dropWhile_subset [of P "rev (dropWhile P xs)"] set_dropWhile_subset [of P xs] by auto

subsection \<open>Concatenation and greedy prefixes\<close>

lemma concat_concat_map: "concat (concat xss) = concat (map concat xss)"
  by (induction xss) auto

lemma takeWhile_append_stop:
  "list_all P xs \<Longrightarrow> t = [] \<or> \<not> P (hd t) \<Longrightarrow> takeWhile P (xs @ t) = xs"
  by (cases t) (auto simp: list_all_iff takeWhile_append2)

lemma concat_map_single: "concat (map (\<lambda>t. [t]) xs) = xs"
  by (induction xs) auto

section \<open>Mapping with exceptions\<close>

lemma map_result_Inr:
  "map_result f xs = Inr ys \<longleftrightarrow> list_all2 (\<lambda>x y. f x = Inr y) xs ys"
proof (induction xs arbitrary: ys)
  case Nil
  then show ?case by auto
next
  case (Cons x xs)
  then show ?case
    by (cases "f x"; cases "map_result f xs") (auto simp: list_all2_Cons1)
qed

lemma map_result_Inl:
  "map_result f xs = Inl e \<longleftrightarrow>
     (\<exists>pre x post. xs = pre @ x # post \<and> list_all (\<lambda>y. \<not> isl (f y)) pre \<and> f x = Inl e)"
proof (induction xs)
  case Nil
  then show ?case by simp
next
  case (Cons x xs)
  show ?case
  proof (cases "f x")
    case (Inl e')
    have "(\<exists>pre z post. x # xs = pre @ z # post \<and> list_all (\<lambda>y. \<not> isl (f y)) pre \<and> f z = Inl e)
          \<longleftrightarrow> e' = e"
    proof
      assume "\<exists>pre z post. x # xs = pre @ z # post \<and> list_all (\<lambda>y. \<not> isl (f y)) pre \<and> f z = Inl e"
      then obtain pre z post where "x # xs = pre @ z # post" "list_all (\<lambda>y. \<not> isl (f y)) pre"
        "f z = Inl e" by blast
      with Inl show "e' = e" by (cases pre) auto
    next
      assume "e' = e"
      with Inl show "\<exists>pre z post. x # xs = pre @ z # post \<and> list_all (\<lambda>y. \<not> isl (f y)) pre \<and> f z = Inl e"
        by (intro exI [of _ "[]"] exI [of _ x] exI [of _ xs]) simp
    qed
    with Inl show ?thesis by auto
  next
    case (Inr y)
    then have "map_result f (x # xs) = Inl e \<longleftrightarrow> map_result f xs = Inl e"
      by (cases "map_result f xs") auto
    also have "\<dots> \<longleftrightarrow> (\<exists>pre z post. xs = pre @ z # post \<and> list_all (\<lambda>y. \<not> isl (f y)) pre \<and> f z = Inl e)"
      by (rule Cons.IH)
    also have "\<dots> \<longleftrightarrow> (\<exists>pre z post. x # xs = pre @ z # post \<and> list_all (\<lambda>y. \<not> isl (f y)) pre \<and> f z = Inl e)"
    proof
      assume "\<exists>pre z post. xs = pre @ z # post \<and> list_all (\<lambda>y. \<not> isl (f y)) pre \<and> f z = Inl e"
      then obtain pre z post where "xs = pre @ z # post" "list_all (\<lambda>y. \<not> isl (f y)) pre"
        "f z = Inl e" by blast
      with Inr show "\<exists>pre z post. x # xs = pre @ z # post \<and> list_all (\<lambda>y. \<not> isl (f y)) pre \<and> f z = Inl e"
        by (intro exI [of _ "x # pre"] exI [of _ z] exI [of _ post]) simp
    next
      assume "\<exists>pre z post. x # xs = pre @ z # post \<and> list_all (\<lambda>y. \<not> isl (f y)) pre \<and> f z = Inl e"
      then obtain pre z post where A: "x # xs = pre @ z # post" "list_all (\<lambda>y. \<not> isl (f y)) pre"
        "f z = Inl e" by blast
      with Inr obtain pre' where "pre = x # pre'" by (cases pre) auto
      with A show "\<exists>pre z post. xs = pre @ z # post \<and> list_all (\<lambda>y. \<not> isl (f y)) pre \<and> f z = Inl e"
        by auto
    qed
    finally show ?thesis .
  qed
qed

lemma map_result_append_Inr:
  "(case map_result f xs of Inl e \<Rightarrow> Inl e | Inr ys \<Rightarrow> Inr (acc @ ys)) =
   map_sum id (\<lambda>ys. acc @ ys) (map_result f xs)"
  by (cases "map_result f xs") auto

lemma list_all2_map_eq:
  "list_all2 (\<lambda>x y. f y = g x \<and> Q y) xs ys \<Longrightarrow> map f ys = map g xs \<and> list_all Q ys"
  by (induction rule: list_all2_induct) auto

lemma list_all2_map_list_all:
  "list_all2 (\<lambda>x y. f y = x \<and> Q y) xs ys \<Longrightarrow> map f ys = xs \<and> list_all Q ys"
  using list_all2_map_eq [of f "\<lambda>x. x" Q xs ys] by simp

lemma list_all2_compose:
  "list_all2 P xs ys \<Longrightarrow> list_all2 Q ys zs \<Longrightarrow> list_all2 (\<lambda>x z. \<exists>y. P x y \<and> Q y z) xs zs"
proof (induction xs ys arbitrary: zs rule: list_all2_induct)
  case Nil
  then show ?case by simp
next
  case (Cons x xs y ys)
  then show ?case by (cases zs) auto
qed

lemma append_loop_map_result:
  "append_loop f xs acc = map_sum id (\<lambda>ys. acc @ ys) (map_result f xs)"
proof (induction xs arbitrary: acc)
  case Nil
  then show ?case by simp
next
  case (Cons x xs)
  then show ?case by (cases "f x"; cases "map_result f xs") auto
qed

lemma append_loop_Nil: "append_loop f xs [] = map_result f xs"
  using append_loop_map_result [of f xs "[]"] by (cases "map_result f xs") auto

lemma map_result_ok:
  "\<not> isl (map_result f xs) \<longleftrightarrow> list_all (\<lambda>x. \<not> isl (f x)) xs"
proof (induction xs)
  case Nil
  then show ?case by simp
next
  case (Cons x xs)
  then show ?case by (cases "f x"; cases "map_result f xs") auto
qed

lemma map_result_length: "map_result f xs = Inr ys \<Longrightarrow> length ys = length xs"
  by (auto simp: map_result_Inr dest: list_all2_lengthD)

lemma list_all2_list_all_iff:
  assumes "list_all2 R xs ys" and "\<And>x y. R x y \<Longrightarrow> P x \<longleftrightarrow> Q y"
  shows "list_all P xs \<longleftrightarrow> list_all Q ys"
  using assms(1) by (induction rule: list_all2_induct) (auto dest: assms(2))

lemma list_all2_ex_right: "list_all2 P xs ys \<Longrightarrow> list_all (\<lambda>y. \<exists>x\<in>set xs. P x y) ys"
  by (induction rule: list_all2_induct) (auto elim: list.pred_mono_strong)

lemma map_result_cong:
  "(\<And>x. x \<in> set xs \<Longrightarrow> f x = g x) \<Longrightarrow> map_result f xs = map_result g xs"
proof (induction xs)
  case Nil
  then show ?case by simp
next
  case (Cons a xs)
  then have tl: "map_result f xs = map_result g xs" and hd: "f a = g a" by simp_all
  show ?case by (simp only: map_result.simps tl hd)
qed

lemma map_result_Inl_elem: "map_result f xs = Inl e \<Longrightarrow> \<exists>x \<in> set xs. f x = Inl e"
  by (auto simp: map_result_Inl)


end
