(* ===== verification/PyString.thy ===== *)
theory PyString
  imports Prelude
begin

text \<open>
  The Python string primitives that \<^verbatim>\<open>src/app.py\<close> relies on, on strings
  of code points below 256 (Isabelle's \<open>char\<close>): the whitespace and digit
  classes of \<^verbatim>\<open>str\<close> and of \<^verbatim>\<open>re\<close>, \<^verbatim>\<open>str.lower\<close>,
  \<^verbatim>\<open>str.strip\<close>, \<^verbatim>\<open>str.split\<close>, \<^verbatim>\<open>str.join\<close> and
  \<^verbatim>\<open>int()\<close>. Python's \<^verbatim>\<open>in\<close> on strings is \<open>sublist\<close> of
  HOL-Library.Sublist and \<^verbatim>\<open>str.endswith\<close> is \<open>suffix\<close>.
  Each definition follows CPython's rule on this range of characters.
\<close>

section \<open>Character classes\<close>

text \<open>
  \<^verbatim>\<open>str.isspace\<close>, \<^verbatim>\<open>str.strip\<close> and the regex class \<^verbatim>\<open>\s\<close>
  all use \<^verbatim>\<open>Py_UNICODE_ISSPACE\<close>: below 256 that is TAB to CR, the four
  separators 0x1C to 0x1F, SPACE, NEL (0x85) and NO-BREAK SPACE (0xA0).
\<close>

definition py_isspace :: "char \<Rightarrow> bool" where
  "py_isspace c \<longleftrightarrow> of_char c \<in> {9, 10, 11, 12, 13, 28, 29, 30, 31, 32, 133, 160 :: nat}"

text \<open>
  The regex class \<^verbatim>\<open>\d\<close> of a \<^verbatim>\<open>str\<close> pattern is the Unicode category
  Nd; below 256 that is exactly the ASCII digits.
\<close>

definition py_isdigit :: "char \<Rightarrow> bool" where
  "py_isdigit c \<longleftrightarrow> 48 \<le> (of_char c :: nat) \<and> (of_char c :: nat) \<le> 57"

definition digit_value :: "char \<Rightarrow> int" where
  "digit_value c = int (of_char c) - 48"

text \<open>
  \<^verbatim>\<open>str.lower\<close> below 256: A to Z and the Latin-1 capitals 0xC0 to 0xDE
  (but the multiplication sign 0xD7) move up by 32; every other character is kept.
\<close>

definition py_lower_char :: "char \<Rightarrow> char" where
  "py_lower_char c =
     (let n = (of_char c :: nat) in
      if (65 \<le> n \<and> n \<le> 90) \<or> (192 \<le> n \<and> n \<le> 222 \<and> n \<noteq> 215) then char_of (n + 32) else c)"

definition py_lower :: "string \<Rightarrow> string" where
  "py_lower s = map py_lower_char s"

section \<open>strip, join, split\<close>

text \<open>\<^verbatim>\<open>s.strip()\<close>: whitespace removed at both ends.\<close>

definition py_strip :: "string \<Rightarrow> string" where
  "py_strip s = rev (dropWhile py_isspace (rev (dropWhile py_isspace s)))"

text \<open>\<^verbatim>\<open>sep.join(xs)\<close>.\<close>

fun py_join :: "string \<Rightarrow> string list \<Rightarrow> string" where
  "py_join sep [] = []"
| "py_join sep [x] = x"
| "py_join sep (x # y # ys) = x @ sep @ py_join sep (y # ys)"

text \<open>
  \<^verbatim>\<open>s.split(sep)\<close> scans left to right and cuts at each leftmost,
  non-overlapping occurrence of \<open>sep\<close>; \<open>cur\<close> is the piece being built.
  An empty separator raises \<open>ValueError\<close>.
\<close>

function split_acc :: "string \<Rightarrow> string \<Rightarrow> string \<Rightarrow> string list" where
  "split_acc sep cur [] = [cur]"
| "split_acc sep cur (c # cs) =
     (if sep \<noteq> [] \<and> prefix sep (c # cs)
      then cur # split_acc sep [] (drop (length sep) (c # cs))
      else split_acc sep (cur @ [c]) cs)"
  by pat_completeness auto
termination
  by (relation "measure (\<lambda>(sep, cur, s). length s)") auto

definition py_split :: "string \<Rightarrow> string \<Rightarrow> string list py_result" where
  "py_split s sep = (if sep = [] then Inl ValueError else Inr (split_acc sep [] s))"

section \<open>int()\<close>

text \<open>
  \<^verbatim>\<open>int(s)\<close> for a \<^verbatim>\<open>str\<close>: CPython first maps every whitespace
  character above 127 to a space, then \<^verbatim>\<open>PyLong_FromString\<close> skips the
  ASCII whitespace TAB to CR and SPACE at both ends, reads an optional sign and
  then decimal digits, with single underscores allowed between digits. Anything
  else raises \<open>ValueError\<close>. (The separators 0x1C to 0x1F are \<^verbatim>\<open>isspace\<close>
  but are not skipped by \<^verbatim>\<open>int()\<close>.)
\<close>

definition int_space :: "char \<Rightarrow> bool" where
  "int_space c \<longleftrightarrow> of_char c \<in> {9, 10, 11, 12, 13, 32, 133, 160 :: nat}"

definition int_digits_ok :: "string \<Rightarrow> bool" where
  "int_digits_ok ds \<longleftrightarrow>
     ds \<noteq> [] \<and> py_isdigit (hd ds) \<and> py_isdigit (last ds) \<and>
     list_all (\<lambda>c. py_isdigit c \<or> c = CHR ''_'') ds \<and> \<not> sublist ''__'' ds"

definition digits_value :: "string \<Rightarrow> int" where
  "digits_value ds = foldl (\<lambda>n c. 10 * n + digit_value c) 0 (filter py_isdigit ds)"

definition py_int :: "string \<Rightarrow> int py_result" where
  "py_int s =
     (let t = rev (dropWhile int_space (rev (dropWhile int_space s))) in
      case t of
        [] \<Rightarrow> Inl ValueError
      | c # cs \<Rightarrow>
          (let (neg, ds) =
             (if c = CHR ''-'' then (True, cs) else if c = CHR ''+'' then (False, cs) else (False, t))
           in if int_digits_ok ds then Inr (if neg then - digits_value ds else digits_value ds)
              else Inl ValueError))"

lemmas [py_eval] = py_isspace_def py_isdigit_def digit_value_def py_lower_char_def py_lower_def
  py_strip_def py_split_def int_space_def int_digits_ok_def digits_value_def py_int_def

section \<open>Lemmas\<close>

subsection \<open>Character classes\<close>

lemma py_isdigit_not_space [simp]: "py_isdigit c \<Longrightarrow> \<not> py_isspace c"
  by (auto simp: py_isdigit_def py_isspace_def)

lemma py_isdigit_not_int_space [simp]: "py_isdigit c \<Longrightarrow> \<not> int_space c"
  by (auto simp: py_isdigit_def int_space_def)

lemma py_isdigit_not_newline [simp]: "py_isdigit c \<Longrightarrow> c \<noteq> CHR 0x0A"
  by (auto simp: py_isdigit_def)

lemma py_isspace_newline [simp]: "py_isspace (CHR 0x0A)"
  by (simp add: py_isspace_def)

lemma py_isdigit_not_sign [simp]:
  "py_isdigit c \<Longrightarrow> c \<noteq> CHR ''-''" "py_isdigit c \<Longrightarrow> c \<noteq> CHR ''+''"
  "py_isdigit c \<Longrightarrow> c \<noteq> CHR ''_''"
  by (auto simp: py_isdigit_def)

lemma digit_value_bounds: "py_isdigit c \<Longrightarrow> 0 \<le> digit_value c \<and> digit_value c \<le> 9"
  by (auto simp: py_isdigit_def digit_value_def)

subsection \<open>strip\<close>

lemma py_strip_hd: "py_strip s = c # cs \<Longrightarrow> \<not> py_isspace c"
  unfolding py_strip_def by (rule trim_hd)

lemma py_strip_last: "py_strip s \<noteq> [] \<Longrightarrow> \<not> py_isspace (last (py_strip s))"
  unfolding py_strip_def using rev_dropWhile_rev_not_last by blast

lemma py_strip_id: "\<not> py_isspace (hd s) \<Longrightarrow> \<not> py_isspace (last s) \<Longrightarrow> py_strip s = s"
  unfolding py_strip_def by (rule trim_id)

lemma py_strip_idem [simp]: "py_strip (py_strip s) = py_strip s"
proof (cases "py_strip s")
  case Nil
  have "py_strip [] = []" by (simp add: py_strip_def)
  with Nil show ?thesis by simp
next
  case (Cons c cs)
  then show ?thesis
    using py_strip_hd py_strip_last py_strip_id by (metis list.distinct(1) list.sel(1))
qed

lemma set_py_strip: "set (py_strip s) \<subseteq> set s"
  unfolding py_strip_def by (rule set_trim)

subsection \<open>join and split\<close>

lemma py_join_Cons: "py_join sep (x # xs) = (if xs = [] then x else x @ sep @ py_join sep xs)"
  by (cases xs) auto

lemma split_acc_nonempty [simp]: "split_acc sep cur s \<noteq> []"
  by (induction sep cur s rule: split_acc.induct) auto

lemma join_split_acc: "py_join sep (split_acc sep cur s) = cur @ s"
proof (induction sep cur s rule: split_acc.induct)
  case (1 sep cur)
  then show ?case by simp
next
  case (2 sep cur c cs)
  show ?case
  proof (cases "sep \<noteq> [] \<and> prefix sep (c # cs)")
    case True
    then have "sep @ drop (length sep) (c # cs) = c # cs" by (auto simp: prefix_def)
    with True "2.IH"(1) show ?thesis by (simp add: py_join_Cons)
  next
    case False
    then have "split_acc sep cur (c # cs) = split_acc sep (cur @ [c]) cs" by auto
    with False "2.IH"(2) show ?thesis by simp
  qed
qed

text \<open>
  A piece of the split contains no separator. The invariant: no separator starts
  inside the piece being built and runs on into the rest of the input.
\<close>

lemma sublist_suffix_prefix:
  assumes "sublist sep cur" and "sep \<noteq> []"
  shows "\<exists>t. suffix t cur \<and> t \<noteq> [] \<and> prefix sep (t @ s)"
proof -
  from assms(1) obtain a b where "cur = a @ sep @ b" by (auto simp: sublist_def)
  then have "suffix (sep @ b) cur" by (auto simp: suffix_def)
  with assms(2) show ?thesis by (intro exI [of _ "sep @ b"]) auto
qed

lemma split_acc_no_sep:
  assumes "sep \<noteq> []"
    and "\<forall>t. suffix t cur \<and> t \<noteq> [] \<longrightarrow> \<not> prefix sep (t @ s)"
    and "p \<in> set (split_acc sep cur s)"
  shows "\<not> sublist sep p"
  using assms
proof (induction sep cur s rule: split_acc.induct)
  case (1 sep cur)
  then show ?case using sublist_suffix_prefix [of sep cur "[]"] by auto
next
  case (2 sep cur c cs)
  show ?case
  proof (cases "prefix sep (c # cs)")
    case True
    with "2.prems" have "p = cur \<or> p \<in> set (split_acc sep [] (drop (length sep) (c # cs)))"
      by simp
    then show ?thesis
    proof
      assume "p = cur"
      with "2.prems"(1,2) show ?thesis using sublist_suffix_prefix [of sep cur "c # cs"] by blast
    next
      assume "p \<in> set (split_acc sep [] (drop (length sep) (c # cs)))"
      with True "2.prems"(1) show ?thesis by (intro "2.IH"(1)) auto
    qed
  next
    case False
    have "\<forall>t. suffix t (cur @ [c]) \<and> t \<noteq> [] \<longrightarrow> \<not> prefix sep (t @ cs)"
    proof (intro allI impI)
      fix t
      assume t: "suffix t (cur @ [c]) \<and> t \<noteq> []"
      then obtain zs where zs: "t = zs @ [c]" and "suffix zs cur" by auto
      show "\<not> prefix sep (t @ cs)"
      proof (cases "zs = []")
        case True
        with zs False show ?thesis by simp
      next
        case False
        with "2.prems"(2) \<open>suffix zs cur\<close> zs show ?thesis by auto
      qed
    qed
    with False "2.prems" show ?thesis by (intro "2.IH"(2)) auto
  qed
qed

lemma split_pieces_no_sep:
  "sep \<noteq> [] \<Longrightarrow> p \<in> set (split_acc sep [] s) \<Longrightarrow> \<not> sublist sep p"
  by (rule split_acc_no_sep) auto

subsection \<open>int()\<close>

lemma dropWhile_hd_not [simp]: "xs \<noteq> [] \<Longrightarrow> \<not> P (hd xs) \<Longrightarrow> dropWhile P xs = xs"
  by (cases xs) auto

lemma py_int_digits:
  assumes "ds \<noteq> []" and "list_all py_isdigit ds"
  shows "py_int ds = Inr (digits_value ds)"
proof -
  have hd: "py_isdigit (hd ds)" and lst: "py_isdigit (last ds)"
    using assms by (auto simp: list_all_iff)
  then have strip: "rev (dropWhile int_space (rev (dropWhile int_space ds))) = ds"
    by (intro trim_id) auto
  have "\<not> py_isdigit (CHR ''_'')" by (simp add: py_isdigit_def)
  then have "CHR ''_'' \<notin> set ds" using assms(2) by (auto simp: list_all_iff)
  then have "\<not> sublist ''__'' ds" using set_mono_sublist by fastforce
  with assms hd lst have ok: "int_digits_ok ds"
    by (auto simp: int_digits_ok_def list_all_iff)
  obtain c cs where ds: "ds = c # cs" using assms(1) by (cases ds) auto
  with hd have "c \<noteq> CHR ''-''" "c \<noteq> CHR ''+''" by auto
  with strip ok ds show ?thesis by (simp add: py_int_def)
qed

lemma digits_value_foldl_bounds:
  assumes "list_all py_isdigit ds" and "0 \<le> a" and "a < 10 ^ k"
  shows "0 \<le> foldl (\<lambda>n c. 10 * n + digit_value c) a ds \<and>
         foldl (\<lambda>n c. 10 * n + digit_value c) a ds < 10 ^ (k + length ds)"
  using assms
proof (induction ds arbitrary: a k)
  case Nil
  then show ?case by simp
next
  case (Cons d ds)
  from Cons.prems have d: "0 \<le> digit_value d \<and> digit_value d \<le> 9"
    by (intro digit_value_bounds) simp
  from Cons.prems(3) have "a \<le> 10 ^ k - 1" by simp
  with d Cons.prems(2) have "0 \<le> 10 * a + digit_value d \<and> 10 * a + digit_value d < 10 ^ Suc k"
    by simp
  with Cons.prems(1) Cons.IH [of "10 * a + digit_value d" "Suc k"] show ?case by simp
qed

lemma digits_value_bounds:
  assumes "list_all py_isdigit ds"
  shows "0 \<le> digits_value ds \<and> digits_value ds < 10 ^ length ds"
proof -
  from assms have "filter py_isdigit ds = ds" by (simp add: list_all_iff)
  with assms digits_value_foldl_bounds [of ds 0 0] show ?thesis by (simp add: digits_value_def)
qed

end
