(* ===== verification/Regex.thy ===== *)
theory Regex
  imports PyString
begin

text \<open>
  The fragment of Python's \<^verbatim>\<open>re\<close> that \<^verbatim>\<open>parse_report\<close> uses, as a
  backtracking matcher. A pattern is a list of items before the capture group and
  the list of items inside the group, which ends the pattern. Every pattern of
  \<^verbatim>\<open>src/app.py\<close> is compiled with \<^verbatim>\<open>re.IGNORECASE\<close>, so a literal
  item matches a character with the same lower case.

  \<open>item_alts i s\<close> lists the inputs left after item \<open>i\<close> has matched a prefix
  of \<open>s\<close>, in the order the engine tries them: a greedy \<^verbatim>\<open>*\<close> or
  \<^verbatim>\<open>+\<close> first takes as many characters as it can and gives them back one at a
  time, \<^verbatim>\<open>?\<close> first tries to take its character. \<open>seq_alts\<close> is the
  depth-first search through a sequence of items, so the first element of its result
  is the match that the backtracking engine finds.
\<close>

section \<open>Patterns\<close>

text \<open>The character classes of the six patterns: \<^verbatim>\<open>\s\<close>, \<^verbatim>\<open>\d\<close>,
  \<^verbatim>\<open>.\<close> (anything but a newline) and \<^verbatim>\<open>[\d,]\<close>.\<close>

datatype char_class = Space | Digit | NotNewline | DigitOrComma

fun in_class :: "char_class \<Rightarrow> char \<Rightarrow> bool" where
  "in_class Space c = py_isspace c"
| "in_class Digit c = py_isdigit c"
| "in_class NotNewline c = (c \<noteq> CHR 0x0A)"
| "in_class DigitOrComma c = (py_isdigit c \<or> c = CHR '','')"

text \<open>Items: a literal, an optional literal \<^verbatim>\<open>c?\<close>, \<^verbatim>\<open>k*\<close>,
  \<^verbatim>\<open>k+\<close> and \<^verbatim>\<open>k{n}\<close>.\<close>

datatype rx_item = Lit char | Opt char | Star char_class | Plus char_class | Rep nat char_class

type_synonym regex = "rx_item list \<times> rx_item list"

definition ci_eq :: "char \<Rightarrow> char \<Rightarrow> bool" where
  "ci_eq p c \<longleftrightarrow> py_lower_char p = py_lower_char c"

fun item_alts :: "rx_item \<Rightarrow> string \<Rightarrow> string list" where
  "item_alts (Lit p) [] = []"
| "item_alts (Lit p) (c # cs) = (if ci_eq p c then [cs] else [])"
| "item_alts (Opt p) [] = [[]]"
| "item_alts (Opt p) (c # cs) = (if ci_eq p c then [cs, c # cs] else [c # cs])"
| "item_alts (Star k) s =
     map (\<lambda>i. drop i s) (rev [0..<Suc (length (takeWhile (in_class k) s))])"
| "item_alts (Plus k) s =
     map (\<lambda>i. drop i s) (rev [1..<Suc (length (takeWhile (in_class k) s))])"
| "item_alts (Rep n k) s =
     (if n \<le> length s \<and> list_all (in_class k) (take n s) then [drop n s] else [])"

fun seq_alts :: "rx_item list \<Rightarrow> string \<Rightarrow> string list" where
  "seq_alts [] s = [s]"
| "seq_alts (i # is) s = concat (map (seq_alts is) (item_alts i s))"

text \<open>
  The group captures what it consumed: for each way the items before it can
  match, each way the group can match after them, in the engine's order.
\<close>

definition captures :: "regex \<Rightarrow> string \<Rightarrow> string list" where
  "captures rx s =
     concat (map (\<lambda>r. map (\<lambda>r'. take (length r - length r') r) (seq_alts (snd rx) r))
                 (seq_alts (fst rx) s))"

definition match_at :: "regex \<Rightarrow> string \<Rightarrow> string option" where
  "match_at rx s = (case captures rx s of [] \<Rightarrow> None | g # _ \<Rightarrow> Some g)"

text \<open>\<^verbatim>\<open>re.search\<close> tries every start position from the left, the end of
  the string included, and returns the group of the first match.\<close>

fun re_search :: "regex \<Rightarrow> string \<Rightarrow> string option" where
  "re_search rx [] = match_at rx []"
| "re_search rx (c # cs) = (case match_at rx (c # cs) of Some g \<Rightarrow> Some g | None \<Rightarrow> re_search rx cs)"

text \<open>A label occurs at the start of a string, comparing as \<^verbatim>\<open>IGNORECASE\<close>
  does, and somewhere in a string; a pattern that begins with the label's literals can
  only match where the label occurs.\<close>

fun ci_prefix :: "string \<Rightarrow> string \<Rightarrow> bool" where
  "ci_prefix [] s = True"
| "ci_prefix (p # ps) [] = False"
| "ci_prefix (p # ps) (c # cs) = (ci_eq p c \<and> ci_prefix ps cs)"

fun ci_occurs :: "string \<Rightarrow> string \<Rightarrow> bool" where
  "ci_occurs l [] = ci_prefix l []"
| "ci_occurs l (c # cs) = (ci_prefix l (c # cs) \<or> ci_occurs l cs)"

lemmas [py_eval] = ci_eq_def captures_def match_at_def

section \<open>Lemmas\<close>

subsection \<open>The leftmost match\<close>

text \<open>
  \<open>re_search\<close> returns the group of the match at the least start position
  \<open>i\<close> (\<open>drop i s\<close> is the input from there) at which the pattern matches.
\<close>

lemma re_search_leftmost:
  "re_search rx s = Some g \<longleftrightarrow>
     (\<exists>i \<le> length s. match_at rx (drop i s) = Some g \<and> (\<forall>j < i. match_at rx (drop j s) = None))"
proof (induction s)
  case Nil
  then show ?case by simp
next
  case (Cons c cs)
  show ?case
  proof (cases "match_at rx (c # cs)")
    case None
    have "(\<exists>i \<le> length (c # cs). match_at rx (drop i (c # cs)) = Some g \<and>
             (\<forall>j < i. match_at rx (drop j (c # cs)) = None)) \<longleftrightarrow>
          (\<exists>i \<le> length cs. match_at rx (drop i cs) = Some g \<and> (\<forall>j < i. match_at rx (drop j cs) = None))"
    proof
      assume "\<exists>i \<le> length (c # cs). match_at rx (drop i (c # cs)) = Some g \<and>
                (\<forall>j < i. match_at rx (drop j (c # cs)) = None)"
      then obtain i where i: "i \<le> length (c # cs)" "match_at rx (drop i (c # cs)) = Some g"
        and before: "\<forall>j < i. match_at rx (drop j (c # cs)) = None" by blast
      with None obtain k where k: "i = Suc k" by (cases i) auto
      have "\<forall>j < k. match_at rx (drop j cs) = None"
        using before k by (metis Suc_mono drop_Suc_Cons)
      with i k show "\<exists>i \<le> length cs. match_at rx (drop i cs) = Some g \<and>
                        (\<forall>j < i. match_at rx (drop j cs) = None)" by auto
    next
      assume "\<exists>i \<le> length cs. match_at rx (drop i cs) = Some g \<and> (\<forall>j < i. match_at rx (drop j cs) = None)"
      then obtain k where k: "k \<le> length cs" "match_at rx (drop k cs) = Some g"
        and before: "\<forall>j < k. match_at rx (drop j cs) = None" by blast
      have "\<forall>j < Suc k. match_at rx (drop j (c # cs)) = None"
      proof (intro allI impI)
        fix j
        assume "j < Suc k"
        with None before show "match_at rx (drop j (c # cs)) = None" by (cases j) auto
      qed
      with k show "\<exists>i \<le> length (c # cs). match_at rx (drop i (c # cs)) = Some g \<and>
                      (\<forall>j < i. match_at rx (drop j (c # cs)) = None)"
        by (intro exI [of _ "Suc k"]) auto
    qed
    with None Cons.IH show ?thesis by simp
  next
    case (Some g')
    then show ?thesis by force
  qed
qed

lemma re_search_None:
  "re_search rx s = None \<longleftrightarrow> (\<forall>i \<le> length s. match_at rx (drop i s) = None)"
proof (induction s)
  case Nil
  then show ?case by simp
next
  case (Cons c cs)
  have "(\<forall>i \<le> length (c # cs). match_at rx (drop i (c # cs)) = None) \<longleftrightarrow>
        match_at rx (c # cs) = None \<and> (\<forall>i \<le> length cs. match_at rx (drop i cs) = None)"
  proof
    assume all: "\<forall>i \<le> length (c # cs). match_at rx (drop i (c # cs)) = None"
    then have "match_at rx (drop 0 (c # cs)) = None" by blast
    moreover have "\<forall>i \<le> length cs. match_at rx (drop i cs) = None"
    proof (intro allI impI)
      fix i
      assume "i \<le> length cs"
      with all show "match_at rx (drop i cs) = None"
        by (metis Suc_le_mono drop_Suc_Cons length_Cons)
    qed
    ultimately show "match_at rx (c # cs) = None \<and> (\<forall>i \<le> length cs. match_at rx (drop i cs) = None)"
      by simp
  next
    assume "match_at rx (c # cs) = None \<and> (\<forall>i \<le> length cs. match_at rx (drop i cs) = None)"
    then show "\<forall>i \<le> length (c # cs). match_at rx (drop i (c # cs)) = None"
      by (metis Suc_le_mono drop0 drop_Suc_Cons length_Cons not0_implies_Suc)
  qed
  with Cons.IH show ?case by (simp split: option.split)
qed

lemma re_search_capture:
  assumes "re_search rx s = Some g"
  shows "\<exists>t. g \<in> set (captures rx t)"
proof -
  from assms obtain i where "match_at rx (drop i s) = Some g"
    using re_search_leftmost by blast
  then show ?thesis by (auto simp: match_at_def split: list.splits intro: exI [of _ "drop i s"])
qed

subsection \<open>What a group captures\<close>

lemma in_class_Digit_eq [simp]: "in_class Digit = py_isdigit"
  by (rule ext) simp

lemma take_le_takeWhile:
  "i \<le> length (takeWhile P xs) \<Longrightarrow> take i xs = take i (takeWhile P xs)"
  by (metis min.absorb_iff1 take_length_takeWhile take_take)

lemma group_capture_Plus:
  assumes "r' \<in> set (seq_alts [Plus k] r)"
  shows "take (length r - length r') r \<noteq> [] \<and> list_all (in_class k) (take (length r - length r') r)"
proof -
  from assms obtain i where i: "1 \<le> i" "i \<le> length (takeWhile (in_class k) r)" and r': "r' = drop i r"
    by auto
  moreover have "i \<le> length r" using i(2) length_takeWhile_le order_trans by blast
  ultimately have "take (length r - length r') r = take i (takeWhile (in_class k) r)"
    by (simp add: take_le_takeWhile)
  moreover have "take i (takeWhile (in_class k) r) \<noteq> []"
    using i by (cases "takeWhile (in_class k) r") auto
  moreover have "list_all (in_class k) (take i (takeWhile (in_class k) r))"
    using list_all_takeWhile by (metis append_take_drop_id list_all_append)
  ultimately show ?thesis by simp
qed

lemma group_capture_Rep:
  assumes "r' \<in> set (seq_alts [Rep n k] r)"
  shows "length (take (length r - length r') r) = n \<and> list_all (in_class k) (take (length r - length r') r)"
  using assms by (auto split: if_splits)

lemma captures_memE:
  assumes "g \<in> set (captures (pre, grp) t)"
  obtains r r' where "r \<in> set (seq_alts pre t)" and "r' \<in> set (seq_alts grp r)"
    and "g = take (length r - length r') r"
  using assms unfolding captures_def by auto

lemma captures_Plus:
  assumes "g \<in> set (captures (pre, [Plus k]) t)"
  shows "g \<noteq> [] \<and> list_all (in_class k) g"
proof -
  from assms obtain r r' where r': "r' \<in> set (seq_alts [Plus k] r)"
    and g: "g = take (length r - length r') r" by (rule captures_memE)
  from r' have "take (length r - length r') r \<noteq> [] \<and> list_all (in_class k) (take (length r - length r') r)" by (rule group_capture_Plus)
  then show ?thesis by (simp only: g simp_thms)
qed

lemma captures_Rep:
  assumes "g \<in> set (captures (pre, [Rep n k]) t)"
  shows "length g = n \<and> list_all (in_class k) g"
proof -
  from assms obtain r r' where r': "r' \<in> set (seq_alts [Rep n k] r)"
    and g: "g = take (length r - length r') r" by (rule captures_memE)
  from r' have "length (take (length r - length r') r) = n \<and> list_all (in_class k) (take (length r - length r') r)" by (rule group_capture_Rep)
  then show ?thesis by (simp only: g simp_thms)
qed

subsection \<open>Sequences of items\<close>

text \<open>The alternatives of a sequence are those of its first part continued by its
  second part; a literal label leaves one alternative, the rest of the input.\<close>

lemma seq_alts_append: "seq_alts (xs @ ys) s = concat (map (seq_alts ys) (seq_alts xs s))"
proof (induction xs arbitrary: s)
  case Nil
  then show ?case by simp
next
  case (Cons i xs)
  then have "seq_alts (xs @ ys) = (\<lambda>s. concat (map (seq_alts ys) (seq_alts xs s)))" by (intro ext)
  then show ?case by (simp add: map_concat comp_def concat_concat_map)
qed

lemma ci_eq_refl [simp]: "ci_eq c c"
  by (simp add: ci_eq_def)

lemma seq_alts_lits: "seq_alts (map Lit l) s = (if ci_prefix l s then [drop (length l) s] else [])"
proof (induction l arbitrary: s)
  case Nil
  then show ?case by simp
next
  case (Cons p ps)
  then show ?case by (cases s) auto
qed

lemma ci_prefix_self [simp]: "ci_prefix l (l @ s)"
  by (induction l) auto

lemma match_at_no_label:
  "\<not> ci_prefix l s \<Longrightarrow> match_at (map Lit l @ rest, grp) s = None"
  by (simp add: match_at_def captures_def seq_alts_append seq_alts_lits)

lemma ci_prefix_append_stop:
  "\<forall>p\<in>set l. \<not> ci_eq p c \<Longrightarrow> ci_prefix l (z @ c # y) = ci_prefix l z"
proof (induction l arbitrary: z)
  case Nil
  then show ?case by simp
next
  case (Cons p ps)
  then show ?case by (cases z) auto
qed

lemma ci_prefix_Nil [simp]: "ci_prefix l [] \<longleftrightarrow> l = []"
  by (cases l) auto

lemma ci_occurs_Nil: "ci_occurs l [] \<longleftrightarrow> l = []"
  by (cases l) auto

lemma ci_occurs_append_stop:
  assumes "l \<noteq> []" and "\<forall>p\<in>set l. \<not> ci_eq p c"
  shows "ci_occurs l (x @ c # y) \<longleftrightarrow> ci_occurs l x \<or> ci_occurs l y"
  using assms
proof (induction x)
  case Nil
  then show ?case by (cases l) (auto simp: ci_occurs_Nil)
next
  case (Cons d ds)
  then show ?case using ci_prefix_append_stop [of l c "d # ds" y] by auto
qed

lemma re_search_skip:
  assumes "\<not> ci_occurs l u" and "\<forall>p\<in>set l. \<not> ci_eq p c"
  shows "re_search (map Lit l @ rest, grp) (u @ c # v) = re_search (map Lit l @ rest, grp) v"
  using assms
proof (induction u)
  case Nil
  then obtain p ps where "l = p # ps" by (cases l) auto
  with Nil have "match_at (map Lit l @ rest, grp) (c # v) = None" by (intro match_at_no_label) simp
  then show ?case by simp
next
  case (Cons d ds)
  then have "\<not> ci_prefix l (d # ds @ c # v)" using ci_prefix_append_stop [of l c "d # ds" v] by simp
  then have "match_at (map Lit l @ rest, grp) (d # ds @ c # v) = None" by (rule match_at_no_label)
  with Cons show ?case by simp
qed

lemma re_search_absent:
  "\<not> ci_occurs l s \<Longrightarrow> re_search (map Lit l @ rest, grp) s = None"
proof (induction s)
  case Nil
  then show ?case by (simp add: match_at_no_label)
next
  case (Cons c cs)
  then show ?case by (simp add: match_at_no_label)
qed

lemma re_search_here:
  "y \<noteq> [] \<Longrightarrow> match_at rx (y @ rest) = Some g \<Longrightarrow> re_search rx (y @ rest) = Some g"
  by (cases y) simp_all

lemma match_at_first:
  "seq_alts pre s = r # rs \<Longrightarrow> seq_alts grp r = r' # rs' \<Longrightarrow>
     match_at (pre, grp) s = Some (take (length r - length r') r)"
  by (simp add: match_at_def captures_def)

lemma seq_alts_append_first:
  "seq_alts xs s = t # ts \<Longrightarrow> seq_alts ys t = u # us \<Longrightarrow> \<exists>vs. seq_alts (xs @ ys) s = u # vs"
  by (simp add: seq_alts_append)

lemma seq_alts_lits_first: "seq_alts (map Lit l) (l @ t) = [t]"
  by (simp add: seq_alts_lits)

lemma seq_alts_single: "seq_alts [i] s = item_alts i s"
proof -
  have "seq_alts [] = (\<lambda>t. [t])" by (rule ext) simp
  then show ?thesis by (simp add: concat_map_single)
qed

lemma seq_alts_star_first:
  assumes "list_all (in_class k) sp" and "t = [] \<or> \<not> in_class k (hd t)"
  shows "\<exists>ts. seq_alts [Star k] (sp @ t) = t # ts"
  using takeWhile_append_stop [OF assms] by (simp add: seq_alts_single)

lemma seq_alts_plus_first:
  assumes "v \<noteq> []" and "list_all (in_class k) v" and "t = [] \<or> \<not> in_class k (hd t)"
  shows "\<exists>ts. seq_alts [Plus k] (v @ t) = t # ts"
proof -
  have "takeWhile (in_class k) (v @ t) = v" using assms(2,3) by (rule takeWhile_append_stop)
  with assms(1) show ?thesis by (cases v) (simp_all add: seq_alts_single)
qed

lemma seq_alts_rep_first:
  "length v = n \<Longrightarrow> list_all (in_class k) v \<Longrightarrow> seq_alts [Rep n k] (v @ t) = [t]"
  by (simp add: seq_alts_single)

lemma seq_alts_opt_first: "ci_eq p c \<Longrightarrow> \<exists>ts. seq_alts [Opt p] (c # t) = t # ts"
  by (simp add: seq_alts_single)

subsection \<open>The first match after a label\<close>

text \<open>A label, white space, and what the remaining items leave: the first alternative
  of each item fixes the group the engine returns.\<close>

lemma match_at_label:
  assumes sp: "list_all py_isspace sp" and u: "u \<noteq> []" "\<not> py_isspace (hd u)"
    and opt: "\<exists>ts. seq_alts opt u = (v @ rest) # ts"
    and grp: "\<exists>ts. seq_alts grp (v @ rest) = rest # ts"
  shows "match_at (map Lit l @ Star Space # opt, grp) (l @ sp @ u) = Some v"
proof -
  have "list_all (in_class Space) sp" using sp by (simp add: list_all_iff)
  moreover have "u = [] \<or> \<not> in_class Space (hd u)" using u by simp
  ultimately obtain ts where star: "seq_alts [Star Space] (sp @ u) = u # ts"
    using seq_alts_star_first by blast
  have lits: "seq_alts (map Lit l) (l @ sp @ u) = [sp @ u]" by (rule seq_alts_lits_first)
  from opt obtain os where "seq_alts opt u = (v @ rest) # os" by blast
  with star obtain ts' where "seq_alts ([Star Space] @ opt) (sp @ u) = (v @ rest) # ts'"
    using seq_alts_append_first by blast
  with lits obtain ps where "seq_alts (map Lit l @ [Star Space] @ opt) (l @ sp @ u) = (v @ rest) # ps"
    using seq_alts_append_first by blast
  moreover from grp obtain gs where "seq_alts grp (v @ rest) = rest # gs" by blast
  ultimately show ?thesis by (simp add: match_at_first)
qed

end
