(* ===== verification/ReportParser.thy ===== *)
theory ReportParser
  imports Regex
begin

text \<open>
  Reading the reports: \<^verbatim>\<open>load_reports\<close> (\<^verbatim>\<open>src/app.py\<close> lines 16-18)
  splits the file contents at the separator line, and \<^verbatim>\<open>parse_report\<close>
  (lines 50-62) applies six case-insensitive patterns to one report and keeps the
  stripped first capture of each, or \<^verbatim>\<open>"N/A"\<close>. The file itself is not
  modelled: its contents are the input.
  The lemmas show that every record \<^verbatim>\<open>parse_report\<close> returns has fields of
  the shapes its patterns allow (\<open>wf_record\<close>), and give the Location field of
  any text in closed form: the first labelled line wins, and the white space after a
  label runs across line breaks. The round trip through a printer of reports is in
  \<open>ReportRender\<close>.
\<close>

section \<open>Loading the reports\<close>

definition report_sep :: string where
  "report_sep = ''\<newline>---\<newline>''"

definition load_reports :: "string \<Rightarrow> string list py_result" where
  "load_reports contents = py_split contents report_sep"

section \<open>The extracted record\<close>

text \<open>The dictionary that \<^verbatim>\<open>parse_report\<close> returns, with its six keys in order.\<close>

record property_record =
  property_id :: string
  location :: string
  year_built :: string
  condition :: string
  estimated_value :: string
  hazards :: string

text \<open>The inner \<^verbatim>\<open>extract(pattern, default)\<close>; \<open>text\<close> is the report it closes over.\<close>

definition extract_field :: "string \<Rightarrow> regex \<Rightarrow> string \<Rightarrow> string" where
  "extract_field text pattern dflt =
     (case re_search pattern text of Some g \<Rightarrow> py_strip g | None \<Rightarrow> dflt)"

text \<open>The six patterns: the label (matched literally, ignoring case), \<^verbatim>\<open>\s*\<close>,
  and the group.\<close>

definition pat_property_id :: regex where
  "pat_property_id = (map Lit ''Property ID:'' @ [Star Space], [Plus Digit])"

definition pat_location :: regex where
  "pat_location = (map Lit ''Location:'' @ [Star Space], [Plus NotNewline])"

definition pat_year_built :: regex where
  "pat_year_built = (map Lit ''Year Built:'' @ [Star Space], [Rep 4 Digit])"

definition pat_condition :: regex where
  "pat_condition = (map Lit ''Condition:'' @ [Star Space], [Plus NotNewline])"

definition pat_estimated_value :: regex where
  "pat_estimated_value = (map Lit ''Estimated Value:'' @ [Star Space, Opt CHR ''$''], [Plus DigitOrComma])"

definition pat_hazards :: regex where
  "pat_hazards = (map Lit ''Hazards:'' @ [Star Space], [Plus NotNewline])"

definition parse_report :: "string \<Rightarrow> property_record" where
  "parse_report text =
     \<lparr>property_id = extract_field text pat_property_id ''N/A'',
      location = extract_field text pat_location ''N/A'',
      year_built = extract_field text pat_year_built ''N/A'',
      condition = extract_field text pat_condition ''N/A'',
      estimated_value = extract_field text pat_estimated_value ''N/A'',
      hazards = extract_field text pat_hazards ''N/A''\<rparr>"

lemmas [py_eval] = report_sep_def load_reports_def extract_field_def pat_property_id_def pat_location_def
  pat_year_built_def pat_condition_def pat_estimated_value_def pat_hazards_def parse_report_def

section \<open>Field shapes\<close>

text \<open>What each pattern lets through, after \<^verbatim>\<open>strip()\<close>.\<close>

definition id_shape :: "string \<Rightarrow> bool" where
  "id_shape s \<longleftrightarrow> s = ''N/A'' \<or> (s \<noteq> [] \<and> list_all py_isdigit s)"

definition year_shape :: "string \<Rightarrow> bool" where
  "year_shape s \<longleftrightarrow> s = ''N/A'' \<or> (length s = 4 \<and> list_all py_isdigit s)"

definition value_shape :: "string \<Rightarrow> bool" where
  "value_shape s \<longleftrightarrow> s = ''N/A'' \<or> (s \<noteq> [] \<and> list_all (in_class DigitOrComma) s)"

definition line_shape :: "string \<Rightarrow> bool" where
  "line_shape s \<longleftrightarrow> CHR 0x0A \<notin> set s \<and> py_strip s = s"

definition wf_record :: "property_record \<Rightarrow> bool" where
  "wf_record r \<longleftrightarrow>
     id_shape (property_id r) \<and> line_shape (location r) \<and> year_shape (year_built r) \<and>
     line_shape (condition r) \<and> value_shape (estimated_value r) \<and> line_shape (hazards r)"

section \<open>Lemmas\<close>

subsection \<open>Loading\<close>

lemma report_sep_nonempty [simp]: "report_sep \<noteq> []"
  by (simp add: report_sep_def)

lemma load_reports_split: "load_reports s = Inr (split_acc report_sep [] s)"
  by (simp add: load_reports_def py_split_def)

subsection \<open>Extraction\<close>

lemma extract_cases:
  "extract_field text rx d = d \<or> (\<exists>t g. g \<in> set (captures rx t) \<and> extract_field text rx d = py_strip g)"
  by (cases "re_search rx text") (auto simp: extract_field_def dest: re_search_capture)

lemma strip_no_space_class:
  assumes "g \<noteq> []" and "list_all P g" and "\<And>c. P c \<Longrightarrow> \<not> py_isspace c"
  shows "py_strip g = g"
proof (rule py_strip_id)
  from assms show "\<not> py_isspace (hd g)" by (cases g) auto
  from assms show "\<not> py_isspace (last g)" by (simp add: list_all_iff)
qed

lemma extract_digits_shape:
  "id_shape (extract_field text (pre, [Plus Digit]) ''N/A'')"
proof -
  consider "extract_field text (pre, [Plus Digit]) ''N/A'' = ''N/A''"
    | t g where "g \<in> set (captures (pre, [Plus Digit]) t)"
        "extract_field text (pre, [Plus Digit]) ''N/A'' = py_strip g"
    using extract_cases by blast
  then show ?thesis
  proof cases
    case 1
    then show ?thesis by (simp add: id_shape_def)
  next
    case (2 t g)
    then have g: "g \<noteq> [] \<and> list_all py_isdigit g" using captures_Plus [of g] by fastforce
    then have "py_strip g = g" by (intro strip_no_space_class [of g py_isdigit]) auto
    with 2 g show ?thesis by (simp add: id_shape_def)
  qed
qed

lemma extract_year_shape:
  "year_shape (extract_field text (pre, [Rep 4 Digit]) ''N/A'')"
proof -
  consider "extract_field text (pre, [Rep 4 Digit]) ''N/A'' = ''N/A''"
    | t g where "g \<in> set (captures (pre, [Rep 4 Digit]) t)"
        "extract_field text (pre, [Rep 4 Digit]) ''N/A'' = py_strip g"
    using extract_cases by blast
  then show ?thesis
  proof cases
    case 1
    then show ?thesis by (simp add: year_shape_def)
  next
    case (2 t g)
    then have g: "length g = 4 \<and> list_all py_isdigit g" using captures_Rep [of g] by fastforce
    then have "py_strip g = g" by (intro strip_no_space_class [of g py_isdigit]) auto
    with 2 g show ?thesis by (simp add: year_shape_def)
  qed
qed

lemma extract_value_shape:
  "value_shape (extract_field text (pre, [Plus DigitOrComma]) ''N/A'')"
proof -
  consider "extract_field text (pre, [Plus DigitOrComma]) ''N/A'' = ''N/A''"
    | t g where "g \<in> set (captures (pre, [Plus DigitOrComma]) t)"
        "extract_field text (pre, [Plus DigitOrComma]) ''N/A'' = py_strip g"
    using extract_cases by blast
  then show ?thesis
  proof cases
    case 1
    then show ?thesis by (simp add: value_shape_def)
  next
    case (2 t g)
    then have g: "g \<noteq> [] \<and> list_all (in_class DigitOrComma) g" using captures_Plus [of g] by fastforce
    have "\<not> py_isspace (CHR '','')" by (simp add: py_isspace_def)
    with g have "py_strip g = g" by (intro strip_no_space_class [of g "in_class DigitOrComma"]) auto
    with 2 g show ?thesis by (simp add: value_shape_def)
  qed
qed

lemma line_shape_NA: "line_shape ''N/A''"
  by (simp add: line_shape_def py_strip_def py_isspace_def)

lemma extract_line_shape:
  "line_shape (extract_field text (pre, [Plus NotNewline]) ''N/A'')"
proof -
  consider "extract_field text (pre, [Plus NotNewline]) ''N/A'' = ''N/A''"
    | t g where "g \<in> set (captures (pre, [Plus NotNewline]) t)"
        "extract_field text (pre, [Plus NotNewline]) ''N/A'' = py_strip g"
    using extract_cases by blast
  then show ?thesis
  proof cases
    case 1
    then show ?thesis by (simp add: line_shape_NA)
  next
    case (2 t g)
    then have "CHR 0x0A \<notin> set g" using captures_Plus [of g] by (fastforce simp: list_all_iff)
    then have "CHR 0x0A \<notin> set (py_strip g)" using set_py_strip by blast
    with 2 show ?thesis by (simp add: line_shape_def)
  qed
qed

subsection \<open>The labels\<close>

text \<open>\<^verbatim>\<open>lower()\<close> on the characters of the six labels, so that case-insensitive
  comparisons with them evaluate by rewriting.\<close>

lemma lower_label_chars:
  "py_lower_char CHR 0x0A = CHR 0x0A \<and>
   py_lower_char CHR '' '' = CHR '' '' \<and>
   py_lower_char CHR ''$'' = CHR ''$'' \<and>
   py_lower_char CHR '':'' = CHR '':'' \<and>
   py_lower_char CHR ''B'' = CHR ''b'' \<and>
   py_lower_char CHR ''C'' = CHR ''c'' \<and>
   py_lower_char CHR ''D'' = CHR ''d'' \<and>
   py_lower_char CHR ''E'' = CHR ''e'' \<and>
   py_lower_char CHR ''H'' = CHR ''h'' \<and>
   py_lower_char CHR ''I'' = CHR ''i'' \<and>
   py_lower_char CHR ''L'' = CHR ''l'' \<and>
   py_lower_char CHR ''P'' = CHR ''p'' \<and>
   py_lower_char CHR ''V'' = CHR ''v'' \<and>
   py_lower_char CHR ''Y'' = CHR ''y'' \<and>
   py_lower_char CHR ''a'' = CHR ''a'' \<and>
   py_lower_char CHR ''c'' = CHR ''c'' \<and>
   py_lower_char CHR ''d'' = CHR ''d'' \<and>
   py_lower_char CHR ''e'' = CHR ''e'' \<and>
   py_lower_char CHR ''i'' = CHR ''i'' \<and>
   py_lower_char CHR ''l'' = CHR ''l'' \<and>
   py_lower_char CHR ''m'' = CHR ''m'' \<and>
   py_lower_char CHR ''n'' = CHR ''n'' \<and>
   py_lower_char CHR ''o'' = CHR ''o'' \<and>
   py_lower_char CHR ''p'' = CHR ''p'' \<and>
   py_lower_char CHR ''r'' = CHR ''r'' \<and>
   py_lower_char CHR ''s'' = CHR ''s'' \<and>
   py_lower_char CHR ''t'' = CHR ''t'' \<and>
   py_lower_char CHR ''u'' = CHR ''u'' \<and>
   py_lower_char CHR ''y'' = CHR ''y'' \<and>
   py_lower_char CHR ''z'' = CHR ''z''"
  by (simp_all add: py_lower_char_def char_of_eq_iff)

lemma location_label_nl: "\<forall>p\<in>set ''Location:''. \<not> ci_eq p CHR 0x0A"
  by (simp add: ci_eq_def lower_label_chars)

subsection \<open>The Location line\<close>

text \<open>The Location pattern matches at its label with the rest of the first non-blank
  line as the group; an earlier text without the label, ending at a line break, is
  skipped by the search.\<close>

lemma location_line_match:
  assumes sp: "list_all py_isspace sp"
    and w: "w \<noteq> []" "\<not> py_isspace (hd w)" "CHR 0x0A \<notin> set w"
    and rest: "rest = [] \<or> hd rest = CHR 0x0A"
  shows "match_at (map Lit ''Location:'' @ [Star Space], [Plus NotNewline]) (''Location:'' @ sp @ w @ rest) = Some w"
proof (rule match_at_label)
  show "\<exists>ts. seq_alts [Plus NotNewline] (w @ rest) = rest # ts"
    using w rest by (intro seq_alts_plus_first) (auto simp: list_all_iff)
  show "\<exists>ts. seq_alts [] (w @ rest) = (w @ rest) # ts" by simp
  show "list_all py_isspace sp" by (fact sp)
  show "w @ rest \<noteq> []" using w by simp
  show "\<not> py_isspace (hd (w @ rest))" using w by simp
qed

lemma re_search_location_after:
  assumes pre: "pre = [] \<or> (last pre = CHR 0x0A \<and> \<not> ci_occurs ''Location:'' pre)"
    and here: "re_search pat_location t = Some w"
  shows "re_search pat_location (pre @ t) = Some w"
proof (cases "pre = []")
  case True
  with here show ?thesis by simp
next
  case False
  with pre have nl: "last pre = CHR 0x0A" "\<not> ci_occurs ''Location:'' pre" by simp_all
  with False have split: "pre = butlast pre @ [CHR 0x0A]"
    using append_butlast_last_id [of pre] by simp
  have "ci_occurs ''Location:'' (butlast pre @ [CHR 0x0A]) \<longleftrightarrow> ci_occurs ''Location:'' (butlast pre) \<or> ci_occurs ''Location:'' []"
    by (rule ci_occurs_append_stop [OF _ location_label_nl]) simp
  with nl split have "\<not> ci_occurs ''Location:'' (butlast pre)" by simp
  then have skip: "re_search pat_location (butlast pre @ CHR 0x0A # t) = re_search pat_location t"
    unfolding pat_location_def by (intro re_search_skip location_label_nl)
  have eq: "pre @ t = butlast pre @ CHR 0x0A # t" using split by (metis append_Cons append_Nil append_assoc)
  show ?thesis unfolding eq skip by (fact here)
qed

section \<open>Properties\<close>

text \<open>
  C4: every record \<^verbatim>\<open>parse_report\<close> returns, whatever the text, is
  well formed: the id is "N/A" or a non-empty string of digits, the year "N/A" or
  four digits, the value "N/A" or a non-empty string of digits and commas, and the
  location, condition and hazards hold no newline and no surrounding whitespace.
\<close>

theorem parse_report_wf: "wf_record (parse_report text)"
  by (simp add: wf_record_def parse_report_def pat_property_id_def pat_location_def
      pat_year_built_def pat_condition_def pat_estimated_value_def pat_hazards_def
      extract_digits_shape extract_year_shape extract_value_shape extract_line_shape)

text \<open>
  C18: the Location field of any report is the stripped text that follows the first
  \<^verbatim>\<open>Location:\<close> label (matched ignoring case) after all the white space
  behind it, line breaks included, up to the end of that line. So a Location line
  with nothing after the label takes the whole next line as its value.
\<close>

theorem parse_report_location:
  assumes pre: "pre = [] \<or> (last pre = CHR 0x0A \<and> \<not> ci_occurs ''Location:'' pre)"
    and sp: "list_all py_isspace sp"
    and w: "w \<noteq> []" "\<not> py_isspace (hd w)" "CHR 0x0A \<notin> set w"
    and rest: "rest = [] \<or> hd rest = CHR 0x0A"
  shows "location (parse_report (pre @ ''Location:'' @ sp @ w @ rest)) = py_strip w"
proof -
  have "re_search pat_location (''Location:'' @ sp @ w @ rest) = Some w"
    unfolding pat_location_def using location_line_match [OF sp w rest] by (intro re_search_here) simp_all
  with pre have "re_search pat_location (pre @ ''Location:'' @ sp @ w @ rest) = Some w"
    by (rule re_search_location_after)
  then show ?thesis by (simp add: parse_report_def extract_field_def)
qed

theorem parse_report_location_witness:
  "location (parse_report (''Property ID: 7\<newline>'' @ ''Location:'' @ ''\<newline>'' @ ''Year Built: 1985'' @ [])) =
     ''Year Built: 1985''"
proof -
  have h1: "''Property ID: 7\<newline>'' = [] \<or>
      (last ''Property ID: 7\<newline>'' = CHR 0x0A \<and> \<not> ci_occurs ''Location:'' ''Property ID: 7\<newline>'')"
    by (simp add: ci_eq_def lower_label_chars py_lower_char_def)
  have h2: "list_all py_isspace ''\<newline>''" by (simp add: py_isspace_def)
  have h3: "''Year Built: 1985'' \<noteq> []" "\<not> py_isspace (hd ''Year Built: 1985'')"
    "CHR 0x0A \<notin> set ''Year Built: 1985''" by (simp_all add: py_isspace_def)
  have h4: "([] :: string) = [] \<or> hd ([] :: string) = CHR 0x0A" by simp
  have "py_strip ''Year Built: 1985'' = ''Year Built: 1985''" by (simp add: py_strip_def py_isspace_def)
  moreover have "location (parse_report (''Property ID: 7\<newline>'' @ ''Location:'' @ ''\<newline>'' @ ''Year Built: 1985'' @ [])) =
     py_strip ''Year Built: 1985''"
    by (rule parse_report_location [OF h1 h2 h3 h4])
  ultimately show ?thesis by (simp only:)
qed

end
