(* ===== verification/TextRisk.thy ===== *)
theory TextRisk
  imports ReportParser
begin

text \<open>
  The rule-based text scorer \<^verbatim>\<open>score_risk\<close> (\<^verbatim>\<open>src/app.py\<close> lines 65-82):
  three rules, each adding a weight and a reason, applied in order, the reasons
  joined with \<^verbatim>\<open>", "\<close>. The third rule calls \<^verbatim>\<open>int()\<close> on the year, which
  raises \<open>ValueError\<close> when the year is \<^verbatim>\<open>"N/A"\<close>; the exception is not caught.
  Its closed form is \<open>text_score\<close> (the weights of the rules that hold) and
  \<open>text_reasons\<close> (their labels in rule order).
\<close>

section \<open>The scorer\<close>

definition score_risk :: "property_record \<Rightarrow> (int \<times> string) py_result" where
  "score_risk report_dict =
     (let risk_score = (0 :: int);
          reasons = ([] :: string list);
          condition = py_lower (condition report_dict);
          hazards = py_lower (hazards report_dict);
          (risk_score, reasons) =
            (if sublist ''water damage'' condition
             then (risk_score + 3, reasons @ [''Water damage'']) else (risk_score, reasons));
          (risk_score, reasons) =
            (if sublist ''flood'' hazards
             then (risk_score + 4, reasons @ [''Flood risk'']) else (risk_score, reasons))
      in case py_int (year_built report_dict) of
           Inl e \<Rightarrow> Inl e
         | Inr year \<Rightarrow>
             (let (risk_score, reasons) =
                (if year < 2000
                 then (risk_score + 2, reasons @ [''Old construction'']) else (risk_score, reasons))
              in Inr (risk_score, py_join '', '' reasons)))"

section \<open>The closed form\<close>

text \<open>The reasons a record triggers, in rule order, when its year parses.\<close>

definition text_reasons :: "property_record \<Rightarrow> int \<Rightarrow> string list" where
  "text_reasons r year =
     (if sublist ''water damage'' (py_lower (condition r)) then [''Water damage''] else []) @
     (if sublist ''flood'' (py_lower (hazards r)) then [''Flood risk''] else []) @
     (if year < 2000 then [''Old construction''] else [])"

definition text_score :: "property_record \<Rightarrow> int \<Rightarrow> int" where
  "text_score r year =
     3 * of_bool (sublist ''water damage'' (py_lower (condition r))) +
     4 * of_bool (sublist ''flood'' (py_lower (hazards r))) +
     2 * of_bool (year < 2000)"

lemmas [py_eval] = score_risk_def text_reasons_def text_score_def

section \<open>Lemmas\<close>

lemma score_risk_Inr:
  assumes "py_int (year_built r) = Inr year"
  shows "score_risk r = Inr (text_score r year, py_join '', '' (text_reasons r year))"
  using assms by (simp add: score_risk_def text_score_def text_reasons_def Let_def)

lemma score_risk_Inl:
  assumes "py_int (year_built r) = Inl e"
  shows "score_risk r = Inl e"
  using assms by (simp add: score_risk_def Let_def split: prod.split)

lemma text_score_cases: "text_score r year \<in> {0, 2, 3, 4, 5, 6, 7, 9}"
  by (simp add: text_score_def)

lemma py_int_NA [simp]: "py_int ''N/A'' = Inl ValueError"
  by (simp add: py_int_def int_space_def int_digits_ok_def py_isdigit_def)

lemma py_int_year_shape:
  assumes "year_shape y" and "y \<noteq> ''N/A''"
  shows "py_int y = Inr (digits_value y)"
proof -
  from assms have "length y = 4" and "list_all py_isdigit y" by (auto simp: year_shape_def)
  then show ?thesis by (intro py_int_digits) auto
qed

lemma py_int_parsed_year:
  "py_int (year_built (parse_report rep)) =
     (if year_built (parse_report rep) = ''N/A'' then Inl ValueError
      else Inr (digits_value (year_built (parse_report rep))))"
proof -
  have "year_shape (year_built (parse_report rep))"
    by (simp add: parse_report_def pat_year_built_def extract_year_shape)
  then show ?thesis by (simp add: py_int_year_shape)
qed

section \<open>Properties\<close>

text \<open>
  C3: the scorer's result on every branch. When the year does not parse, the
  exception of \<^verbatim>\<open>int()\<close> is the result; otherwise the score is the sum of the
  weights of the rules that hold and the reasons are their labels in rule order,
  joined with a comma and a space.
\<close>

theorem score_risk_spec:
  "score_risk r =
     (case py_int (year_built r) of
        Inl e \<Rightarrow> Inl e
      | Inr year \<Rightarrow> Inr (text_score r year, py_join '', '' (text_reasons r year)))"
  by (cases "py_int (year_built r)") (simp_all add: score_risk_Inr score_risk_Inl)

text \<open>
  C8: on a parsed report the scorer fails exactly when the report has no
  Year Built line (the field is "N/A"), and then with \<open>ValueError\<close>; a parsed
  year is always four digits, which \<^verbatim>\<open>int()\<close> accepts.
\<close>

theorem parse_score_error:
  "(case score_risk (parse_report rep) of
      Inl e \<Rightarrow> e = ValueError \<and> year_built (parse_report rep) = ''N/A''
    | Inr _ \<Rightarrow> year_built (parse_report rep) \<noteq> ''N/A'')"
  using py_int_parsed_year [of rep]
  by (cases "year_built (parse_report rep) = ''N/A''") (simp_all add: score_risk_Inl score_risk_Inr)

end
