(* ===== verification/Classify.thy ===== *)
theory Classify
  imports Prelude
begin

text \<open>
  The classifier \<^verbatim>\<open>classify_risk\<close> (\<^verbatim>\<open>src/app.py\<close> lines 84-90) maps a
  total score to a risk level and a decision. The code returns the pair of strings
  \<^verbatim>\<open>("High", "Reject")\<close>, \<^verbatim>\<open>("Medium", "Review")\<close> or
  \<^verbatim>\<open>("Low", "Approve")\<close>; the model returns the matching constructors, and
  \<open>level_name\<close> and \<open>decision_name\<close> give back the strings written to the
  report. Risk levels are ordered Low < Medium < High (a \<open>linorder\<close> instance),
  so that the classifier can be shown monotone.
\<close>

datatype risk_level = Low | Medium | High

datatype decision = Approve | Review | Reject

fun level_name :: "risk_level \<Rightarrow> string" where
  "level_name Low = ''Low''"
| "level_name Medium = ''Medium''"
| "level_name High = ''High''"

fun decision_name :: "decision \<Rightarrow> string" where
  "decision_name Approve = ''Approve''"
| "decision_name Review = ''Review''"
| "decision_name Reject = ''Reject''"

definition classify_risk :: "int \<Rightarrow> risk_level \<times> decision" where
  "classify_risk score =
     (if score \<ge> 7 then (High, Reject)
      else if score \<ge> 4 then (Medium, Review)
      else (Low, Approve))"

lemmas [py_eval] = classify_risk_def

section \<open>The order of risk levels\<close>

fun level_rank :: "risk_level \<Rightarrow> nat" where
  "level_rank Low = 0"
| "level_rank Medium = 1"
| "level_rank High = 2"

lemma level_rank_inj: "level_rank l = level_rank m \<Longrightarrow> l = m"
  by (cases l; cases m) auto

instantiation risk_level :: linorder
begin

definition less_eq_risk_level :: "risk_level \<Rightarrow> risk_level \<Rightarrow> bool" where
  "l \<le> m \<longleftrightarrow> level_rank l \<le> level_rank m"

definition less_risk_level :: "risk_level \<Rightarrow> risk_level \<Rightarrow> bool" where
  "l < m \<longleftrightarrow> level_rank l < level_rank m"

instance
proof
  fix l m n :: risk_level
  show "l < m \<longleftrightarrow> l \<le> m \<and> \<not> m \<le> l"
    by (auto simp: less_eq_risk_level_def less_risk_level_def)
  show "l \<le> l" by (simp add: less_eq_risk_level_def)
  show "l \<le> m \<Longrightarrow> m \<le> n \<Longrightarrow> l \<le> n" by (simp add: less_eq_risk_level_def)
  show "l \<le> m \<Longrightarrow> m \<le> l \<Longrightarrow> l = m"
    by (simp add: less_eq_risk_level_def level_rank_inj)
  show "l \<le> m \<or> m \<le> l" by (auto simp: less_eq_risk_level_def)
qed

end

section \<open>Lemmas\<close>

text \<open>The decision is a function of the level alone.\<close>

fun decision_of :: "risk_level \<Rightarrow> decision" where
  "decision_of Low = Approve"
| "decision_of Medium = Review"
| "decision_of High = Reject"

lemma classify_risk_decision: "snd (classify_risk s) = decision_of (fst (classify_risk s))"
  by (simp add: classify_risk_def)

lemma classify_risk_level:
  "fst (classify_risk s) = (if 7 \<le> s then High else if 4 \<le> s then Medium else Low)"
  by (simp add: classify_risk_def)

section \<open>Properties\<close>

text \<open>
  C2: the thresholds of \<^verbatim>\<open>classify_risk\<close>: a score of 7 or more is
  (High, Reject), a score from 4 to 6 is (Medium, Review), a score below 4 is
  (Low, Approve); 4 and 7 belong to the upper tier.
\<close>

theorem classify_risk_spec:
  "(classify_risk s = (High, Reject) \<longleftrightarrow> 7 \<le> s) \<and>
   (classify_risk s = (Medium, Review) \<longleftrightarrow> 4 \<le> s \<and> s < 7) \<and>
   (classify_risk s = (Low, Approve) \<longleftrightarrow> s < 4)"
  by (simp add: classify_risk_def)

text \<open>
  C20: the classifier is monotone: a higher total score never gets a lower risk
  level.
\<close>

theorem classify_risk_mono:
  "s \<le> t \<Longrightarrow> fst (classify_risk s) \<le> fst (classify_risk t)"
  by (auto simp: classify_risk_def less_eq_risk_level_def)

theorem classify_risk_mono_witness:
  "(3::int) \<le> 7 \<and> fst (classify_risk 3) \<le> fst (classify_risk 7)"
  using classify_risk_mono [of 3 7] by simp

end
