(* ===== verification/Images.thy ===== *)
theory Images
  imports PyString
begin

text \<open>
  The image scanner \<^verbatim>\<open>analyze_images\<close> (\<^verbatim>\<open>src/app.py\<close> lines 20-44).
  The directory listing of \<^verbatim>\<open>os.listdir\<close> is an input list, in the order the
  call returns it. Reading and recognising a file (\<^verbatim>\<open>cv2.imread\<close> then
  \<^verbatim>\<open>pytesseract.image_to_string\<close>) is an injected \<open>ocr_engine\<close>: for a file
  name, the recognised text or the exception the two calls raise (\<open>TypeError\<close>
  when \<^verbatim>\<open>imread\<close> returns \<^verbatim>\<open>None\<close> for an unreadable file). The loop keeps
  the files whose name ends in \<^verbatim>\<open>.jpg\<close>, \<^verbatim>\<open>.jpeg\<close> or \<^verbatim>\<open>.png\<close>
  (case-sensitive), scores the text with two keyword rules and appends one record
  per file; an exception of the OCR engine is not caught.
  The lemmas show that the loop is the map of \<open>scan_image\<close> over the supported
  files (stopping at the first exception), the values a score can take, and which
  exception a run raises.
\<close>

record image_result =
  image_file :: string
  ocr_text :: string
  image_risk_score :: int
  image_risk_factors :: string

type_synonym ocr_engine = "string \<Rightarrow> string py_result"

definition supported_image :: "string \<Rightarrow> bool" where
  "supported_image file \<longleftrightarrow> suffix ''.jpg'' file \<or> suffix ''.jpeg'' file \<or> suffix ''.png'' file"

text \<open>The two keyword rules of lines 29-36.\<close>

definition image_risk :: "string \<Rightarrow> int \<times> string list" where
  "image_risk text =
     (let score = (0 :: int);
          reasons = ([] :: string list);
          (score, reasons) =
            (if sublist ''crack'' (py_lower text)
             then (score + 3, reasons @ [''Cracks detected'']) else (score, reasons));
          (score, reasons) =
            (if sublist ''leak'' (py_lower text)
             then (score + 2, reasons @ [''Leakage mentioned'']) else (score, reasons))
      in (score, reasons))"

text \<open>The body of the loop for a supported file (lines 24-43).\<close>

definition scan_image :: "ocr_engine \<Rightarrow> string \<Rightarrow> image_result py_result" where
  "scan_image ocr file =
     (case ocr file of
        Inl e \<Rightarrow> Inl e
      | Inr text \<Rightarrow>
          (let (score, reasons) = image_risk text
           in Inr \<lparr>image_file = file, ocr_text = text, image_risk_score = score,
                   image_risk_factors = py_join '', '' reasons\<rparr>))"

fun analyze_loop :: "ocr_engine \<Rightarrow> string list \<Rightarrow> image_result list \<Rightarrow> image_result list py_result" where
  "analyze_loop ocr [] results = Inr results"
| "analyze_loop ocr (file # files) results =
     (if supported_image file
      then (case scan_image ocr file of
              Inl e \<Rightarrow> Inl e
            | Inr row \<Rightarrow> analyze_loop ocr files (results @ [row]))
      else analyze_loop ocr files results)"

definition analyze_images :: "ocr_engine \<Rightarrow> string list \<Rightarrow> image_result list py_result" where
  "analyze_images ocr listing = analyze_loop ocr listing []"

lemmas [py_eval] = supported_image_def image_risk_def scan_image_def analyze_images_def

section \<open>Lemmas\<close>

lemma image_risk_eq:
  "image_risk text =
     (3 * of_bool (sublist ''crack'' (py_lower text)) + 2 * of_bool (sublist ''leak'' (py_lower text)),
      (if sublist ''crack'' (py_lower text) then [''Cracks detected''] else []) @
      (if sublist ''leak'' (py_lower text) then [''Leakage mentioned''] else []))"
  by (simp add: image_risk_def)

lemma scan_image_Inr:
  "scan_image ocr file = Inr row \<Longrightarrow>
     image_file row = file \<and> ocr file = Inr (ocr_text row) \<and>
     (image_risk_score row, image_risk_factors row) =
       (fst (image_risk (ocr_text row)), py_join '', '' (snd (image_risk (ocr_text row))))"
  by (auto simp: scan_image_def split: sum.splits prod.splits)

lemma scan_image_Inl: "scan_image ocr file = Inl e \<longleftrightarrow> ocr file = Inl e"
  by (auto simp: scan_image_def split: sum.splits prod.splits)

lemma analyze_loop_map_result:
  "analyze_loop ocr files acc =
     map_sum id (\<lambda>ys. acc @ ys) (map_result (scan_image ocr) (filter supported_image files))"
proof (induction files arbitrary: acc)
  case Nil
  then show ?case by simp
next
  case (Cons fl fls)
  show ?case
  proof (cases "supported_image fl")
    case True
    then show ?thesis
      using Cons.IH by (cases "scan_image ocr fl"; cases "map_result (scan_image ocr) (filter supported_image fls)") auto
  next
    case False
    with Cons.IH show ?thesis by simp
  qed
qed

lemma scan_image_isl: "isl (scan_image ocr file) \<longleftrightarrow> isl (ocr file)"
  by (cases "ocr file") (auto simp: scan_image_def split: prod.splits)

lemma image_risk_score_cases: "fst (image_risk text) \<in> {0, 2, 3, 5}"
  by (simp add: image_risk_eq)

lemma scan_image_cong: "ocr file = ocr' file \<Longrightarrow> scan_image ocr file = scan_image ocr' file"
  by (simp add: scan_image_def)

lemma analyze_images_Inr:
  "analyze_images ocr listing = Inr rows \<Longrightarrow>
     list_all2 (\<lambda>f row. scan_image ocr f = Inr row) (filter supported_image listing) rows"
  using analyze_loop_map_result [of ocr listing "[]"]
  by (cases "map_result (scan_image ocr) (filter supported_image listing)")
     (simp_all add: analyze_images_def map_result_Inr)

lemma analyze_images_files:
  "analyze_images ocr listing = Inr rows \<Longrightarrow> map image_file rows = filter supported_image listing"
  using analyze_images_Inr [of ocr listing rows] scan_image_Inr
  by (intro list_all2_map_list_all [of image_file "\<lambda>_. True", THEN conjunct1])
     (fastforce elim!: list_all2_mono)

lemma analyze_images_mem:
  assumes "analyze_images ocr listing = Inr rows" and "m \<in> set rows"
  shows "image_file m \<in> set listing \<and> supported_image (image_file m) \<and> scan_image ocr (image_file m) = Inr m"
proof -
  from assms(1) have "list_all (\<lambda>row. \<exists>f\<in>set (filter supported_image listing). scan_image ocr f = Inr row) rows"
    by (intro list_all2_ex_right analyze_images_Inr)
  with assms(2) obtain f where f: "f \<in> set listing" "supported_image f" and sc: "scan_image ocr f = Inr m"
    by (auto simp: list_all_iff)
  from sc have "image_file m = f" by (simp add: scan_image_Inr)
  with f sc show ?thesis by simp
qed

section \<open>Properties\<close>

text \<open>
  C9: the scanning loop is the map of the per-file scan over the files with a
  supported extension, in listing order, stopping at the first exception.
\<close>

theorem analyze_images_map:
  "analyze_images ocr listing = map_result (scan_image ocr) (filter supported_image listing)"
  using analyze_loop_map_result [of ocr listing "[]"]
  by (cases "map_result (scan_image ocr) (filter supported_image listing)") (simp_all add: analyze_images_def)

text \<open>
  C15: a successful scan has one record per supported file, in listing order, and
  each image score is 0, 2, 3 or 5.
\<close>

theorem analyze_images_rows:
  assumes "analyze_images ocr listing = Inr rows"
  shows "map image_file rows = filter supported_image listing \<and>
         list_all (\<lambda>row. image_risk_score row \<in> {0, 2, 3, 5}) rows"
proof -
  from assms have rel: "list_all2 (\<lambda>f row. scan_image ocr f = Inr row) (filter supported_image listing) rows"
    by (rule analyze_images_Inr)
  then have "list_all2 (\<lambda>f row. image_file row = f \<and> image_risk_score row \<in> {0, 2, 3, 5})
               (filter supported_image listing) rows"
    using scan_image_Inr image_risk_score_cases by (fastforce elim!: list_all2_mono)
  then show ?thesis by (rule list_all2_map_list_all)
qed

theorem analyze_images_rows_witness:
  "analyze_images (\<lambda>f. Inr ''leak at crack'') [''a.png'', ''notes.txt''] =
     Inr [\<lparr>image_file = ''a.png'', ocr_text = ''leak at crack'', image_risk_score = 5,
           image_risk_factors = ''Cracks detected, Leakage mentioned''\<rparr>] \<and>
   map image_file [\<lparr>image_file = ''a.png'', ocr_text = ''leak at crack'', image_risk_score = 5,
           image_risk_factors = ''Cracks detected, Leakage mentioned''\<rparr>] =
     filter supported_image [''a.png'', ''notes.txt'']"
proof -
  have run: "analyze_images (\<lambda>f. Inr ''leak at crack'') [''a.png'', ''notes.txt''] =
     Inr [\<lparr>image_file = ''a.png'', ocr_text = ''leak at crack'', image_risk_score = 5,
           image_risk_factors = ''Cracks detected, Leakage mentioned''\<rparr>]"
    by (simp add: py_eval)
  show ?thesis using run analyze_images_rows [OF run] by simp
qed

text \<open>
  C14: the scan raises exactly when the OCR engine raises on some supported file,
  and the exception is that of the first such file in listing order: one unreadable
  image aborts the whole scan.
\<close>

theorem analyze_images_error:
  "analyze_images ocr listing = Inl e \<longleftrightarrow>
     (\<exists>pre f post. filter supported_image listing = pre @ f # post \<and>
        list_all (\<lambda>g. \<not> isl (ocr g)) pre \<and> ocr f = Inl e)"
  by (simp add: analyze_images_map map_result_Inl scan_image_isl scan_image_Inl)

text \<open>
  C19: the OCR engine is consulted only for the files with a supported extension,
  compared case-sensitively: two engines that agree on those files give the same
  scan, whatever they do on the others. A photo named \<^verbatim>\<open>1023_FRONT.JPG\<close> is
  never read, even by an engine that would fail on it.
\<close>

theorem analyze_images_reads_supported_only:
  assumes "\<forall>f\<in>set listing. supported_image f \<longrightarrow> ocr f = ocr' f"
  shows "analyze_images ocr listing = analyze_images ocr' listing"
proof -
  have "map_result (scan_image ocr) (filter supported_image listing) =
        map_result (scan_image ocr') (filter supported_image listing)"
    using assms by (intro map_result_cong scan_image_cong) auto
  then show ?thesis
    using analyze_loop_map_result [of ocr listing "[]"] analyze_loop_map_result [of ocr' listing "[]"]
    by (simp add: analyze_images_def)
qed

theorem analyze_images_reads_supported_only_witness:
  "(\<lambda>f. if f = ''1023_FRONT.JPG'' then Inl TypeError else Inr ''leak'') ''1023_FRONT.JPG'' \<noteq>
     (\<lambda>f. Inr ''leak'') ''1023_FRONT.JPG'' \<and>
   analyze_images (\<lambda>f. if f = ''1023_FRONT.JPG'' then Inl TypeError else Inr ''leak'') [''1023_FRONT.JPG'', ''1023_side.png''] =
     analyze_images (\<lambda>f. Inr ''leak'') [''1023_FRONT.JPG'', ''1023_side.png'']"
proof -
  have h: "\<forall>f\<in>set [''1023_FRONT.JPG'', ''1023_side.png''].
      supported_image f \<longrightarrow>
        (\<lambda>f. if f = ''1023_FRONT.JPG'' then Inl TypeError else Inr ''leak'') f = (\<lambda>f. Inr ''leak'') f"
    by (simp add: py_eval)
  show ?thesis using analyze_images_reads_supported_only [OF h] by simp
qed

end
