(* ===== verification/Pipeline.thy ===== *)
theory Pipeline
  imports TextRisk Classify Images
begin

text \<open>
  The main block of \<^verbatim>\<open>src/app.py\<close> (lines 97-138), which composes the
  components. Each parsed report dictionary gains two keys when scored (record
  \<open>scored_report\<close>, lines 103-107) and seven more when merged with its image and
  classified (record \<open>final_row\<close>, lines 113-136); the fields are in the order of
  the CSV columns. The steps run in the order of the source: all reports are
  scored first, then the images are scanned, then each report is matched against
  the image table. Every exception aborts the whole run.

  The image table is the DataFrame of the scan results. \<^verbatim>\<open>image_df["Image File"]\<close>
  raises \<open>KeyError\<close> when the scan found no image (a DataFrame built from an
  empty list has no columns). \<^verbatim>\<open>str.contains(prop_id)\<close> treats the id as a
  regular expression; the ids \<^verbatim>\<open>parse_report\<close> produces (digits or
  \<^verbatim>\<open>"N/A"\<close>) hold no metacharacter, so it is a substring test. \<^verbatim>\<open>squeeze()\<close>
  of the k matching rows gives an empty DataFrame for k = 0 (the no-match branch),
  a Series for k = 1 (the match branch), and for k of 2 or more a DataFrame whose
  columns are Series: the branch stores them, and \<^verbatim>\<open>classify_risk\<close> then
  evaluates \<^verbatim>\<open>score >= 7\<close> on a Series, which raises \<open>ValueError\<close>.
\<close>

record scored_report = property_record +
  risk_score :: int
  risk_factors :: string

record final_row = scored_report +
  row_image_file :: string
  row_image_ocr_text :: string
  row_image_risk_score :: int
  row_image_risk_factors :: string
  total_risk_score :: int
  row_risk_level :: risk_level
  underwriting_decision :: decision

section \<open>Scoring the reports (lines 101-107)\<close>

definition score_report :: "string \<Rightarrow> scored_report py_result" where
  "score_report report =
     (let parsed = parse_report report in
      case score_risk parsed of
        Inl e \<Rightarrow> Inl e
      | Inr (score, reason) \<Rightarrow> Inr (property_record.extend parsed (scored_report.fields score reason)))"

section \<open>Matching, merging and classifying (lines 113-136)\<close>

definition contains_id :: "string \<Rightarrow> image_result \<Rightarrow> bool" where
  "contains_id prop_id row \<longleftrightarrow> sublist prop_id (image_file row)"

definition matching_rows :: "image_result list \<Rightarrow> string \<Rightarrow> image_result list py_result" where
  "matching_rows image_df prop_id =
     (if image_df = [] then Inl KeyError else Inr (filter (contains_id prop_id) image_df))"

definition combine_row :: "image_result list \<Rightarrow> scored_report \<Rightarrow> final_row py_result" where
  "combine_row image_df r =
     (case matching_rows image_df (property_id r) of
        Inl e \<Rightarrow> Inl e
      | Inr matching \<Rightarrow>
          (case matching of
             [] \<Rightarrow>
               (let total = risk_score r;
                    (risk_level, decision) = classify_risk total
                in Inr (scored_report.extend r
                         (final_row.fields ''N/A'' [] 0 [] total risk_level decision)))
           | [m] \<Rightarrow>
               (let total = risk_score r + image_risk_score m;
                    (risk_level, decision) = classify_risk total
                in Inr (scored_report.extend r
                         (final_row.fields (image_file m) (ocr_text m) (image_risk_score m)
                            (image_risk_factors m) total risk_level decision)))
           | _ \<Rightarrow> Inl ValueError))"

section \<open>The run\<close>

text \<open>The report file's contents, the directory listing and the OCR engine in;
  the rows of the final DataFrame, or the exception, out.\<close>

definition main_run :: "string \<Rightarrow> string list \<Rightarrow> ocr_engine \<Rightarrow> final_row list py_result" where
  "main_run report_file listing ocr =
     (case load_reports report_file of
        Inl e \<Rightarrow> Inl e
      | Inr reports \<Rightarrow>
          (case append_loop score_report reports [] of
             Inl e \<Rightarrow> Inl e
           | Inr results \<Rightarrow>
               (case analyze_images ocr listing of
                  Inl e \<Rightarrow> Inl e
                | Inr image_results \<Rightarrow> append_loop (combine_row image_results) results [])))"

text \<open>What every output row satisfies.\<close>

definition row_consistent :: "final_row \<Rightarrow> bool" where
  "row_consistent row \<longleftrightarrow>
     score_risk (property_record.truncate row) = Inr (risk_score row, risk_factors row) \<and>
     total_risk_score row = risk_score row + row_image_risk_score row \<and>
     (row_risk_level row, underwriting_decision row) = classify_risk (total_risk_score row)"

lemmas [py_eval] = score_report_def contains_id_def matching_rows_def combine_row_def main_run_def
  property_record.defs scored_report.defs final_row.defs

section \<open>Lemmas\<close>

lemma score_report_Inr:
  assumes "score_report t = Inr r"
  shows "property_record.truncate r = parse_report t \<and>
         score_risk (parse_report t) = Inr (risk_score r, risk_factors r)"
  using assms
  by (auto simp: score_report_def Let_def property_record.defs scored_report.defs split: sum.splits)

lemma score_report_isl: "isl (score_report t) \<longleftrightarrow> isl (score_risk (parse_report t))"
  by (auto simp: score_report_def Let_def split: sum.splits)

lemma combine_row_Inr:
  assumes "combine_row image_df r = Inr row"
  shows "\<exists>f t s fs. row = scored_report.extend r (final_row.fields f t s fs (risk_score r + s)
                      (fst (classify_risk (risk_score r + s))) (snd (classify_risk (risk_score r + s))))"
proof -
  from assms obtain matching where m: "matching_rows image_df (property_id r) = Inr matching"
    by (cases "matching_rows image_df (property_id r)") (auto simp: combine_row_def)
  consider "matching = []" | m1 where "matching = [m1]" | a b c where "matching = a # b # c"
    by (cases matching rule: remdups_adj.cases) auto
  then show ?thesis
  proof cases
    case 1
    with assms m have "row = scored_report.extend r (final_row.fields ''N/A'' [] 0 [] (risk_score r + 0)
                   (fst (classify_risk (risk_score r + 0))) (snd (classify_risk (risk_score r + 0))))"
      by (auto simp: combine_row_def Let_def split: prod.splits)
    then show ?thesis by blast
  next
    case (2 m1)
    with assms m have "row = scored_report.extend r (final_row.fields (image_file m1) (ocr_text m1)
                   (image_risk_score m1) (image_risk_factors m1) (risk_score r + image_risk_score m1)
                   (fst (classify_risk (risk_score r + image_risk_score m1)))
                   (snd (classify_risk (risk_score r + image_risk_score m1))))"
      by (auto simp: combine_row_def Let_def split: prod.splits)
    then show ?thesis by blast
  next
    case (3 a b c)
    with assms m show ?thesis by (simp add: combine_row_def)
  qed
qed

text \<open>Where the image columns of a merged row come from: the defaults when no row
  of the table matches, or the one matching row.\<close>

lemma combine_row_image:
  assumes "combine_row image_df r = Inr row"
  shows "property_id row = property_id r \<and> risk_score row = risk_score r \<and>
    ((row_image_file row = ''N/A'' \<and> row_image_ocr_text row = [] \<and> row_image_risk_score row = 0 \<and>
      row_image_risk_factors row = [] \<and> filter (contains_id (property_id r)) image_df = []) \<or>
     (\<exists>m\<in>set image_df. contains_id (property_id r) m \<and> row_image_file row = image_file m \<and>
        row_image_ocr_text row = ocr_text m \<and> row_image_risk_score row = image_risk_score m \<and>
        row_image_risk_factors row = image_risk_factors m))"
proof -
  from assms have ne: "image_df \<noteq> []" by (auto simp: combine_row_def matching_rows_def)
  let ?matching = "filter (contains_id (property_id r)) image_df"
  consider "?matching = []" | m1 where "?matching = [m1]" | a b c where "?matching = a # b # c"
    by (cases ?matching rule: remdups_adj.cases) auto
  then show ?thesis
  proof cases
    case 1
    with assms ne show ?thesis
      by (auto simp: combine_row_def matching_rows_def Let_def scored_report.defs final_row.defs
          property_record.defs split: prod.splits)
  next
    case (2 m1)
    then have "m1 \<in> set image_df" "contains_id (property_id r) m1"
      using filter_eq_ConsD [OF 2] by auto
    with 2 assms ne show ?thesis
      by (auto simp: combine_row_def matching_rows_def Let_def scored_report.defs final_row.defs
          property_record.defs split: prod.splits)
  next
    case (3 a b c)
    with assms ne show ?thesis by (simp add: combine_row_def matching_rows_def)
  qed
qed

lemma combine_row_consistent:
  assumes "score_report t = Inr r" and "combine_row image_df r = Inr row"
  shows "property_record.truncate row = parse_report t \<and> row_consistent row"
proof -
  from assms(2) obtain f tx s fs where row:
    "row = scored_report.extend r (final_row.fields f tx s fs (risk_score r + s)
             (fst (classify_risk (risk_score r + s))) (snd (classify_risk (risk_score r + s))))"
    using combine_row_Inr by blast
  have trunc: "property_record.truncate row = property_record.truncate r"
    by (simp add: row property_record.defs scored_report.defs final_row.defs)
  from assms(1) have "property_record.truncate r = parse_report t"
    and "score_risk (parse_report t) = Inr (risk_score r, risk_factors r)"
    by (simp_all add: score_report_Inr)
  with trunc row show ?thesis
    by (simp add: row_consistent_def scored_report.defs final_row.defs)
qed

lemma combine_row_isl:
  "\<not> isl (combine_row image_df r) \<longleftrightarrow>
     image_df \<noteq> [] \<and> length (filter (contains_id (property_id r)) image_df) \<le> 1"
proof (cases "image_df = []")
  case True
  then show ?thesis by (simp add: combine_row_def matching_rows_def)
next
  case False
  then show ?thesis
    by (cases "filter (contains_id (property_id r)) image_df" rule: remdups_adj.cases)
       (auto simp: combine_row_def matching_rows_def Let_def split: prod.splits)
qed

lemma main_run_Inr:
  assumes "main_run report_file listing ocr = Inr rows"
  obtains results image_results where
    "map_result score_report (split_acc report_sep [] report_file) = Inr results"
    "analyze_images ocr listing = Inr image_results"
    "map_result (combine_row image_results) results = Inr rows"
  using assms
  by (auto simp: main_run_def load_reports_split append_loop_Nil split: sum.splits)

lemma score_report_error:
  "score_report t = Inl e \<Longrightarrow> e = ValueError \<and> year_built (parse_report t) = ''N/A''"
  using py_int_parsed_year [of t]
  by (cases "year_built (parse_report t) = ''N/A''")
     (auto simp: score_report_def score_risk_Inl score_risk_Inr Let_def)

lemma score_report_ok: "\<not> isl (score_report t) \<longleftrightarrow> year_built (parse_report t) \<noteq> ''N/A''"
  using py_int_parsed_year [of t]
  by (cases "year_built (parse_report t) = ''N/A''")
     (auto simp: score_report_isl score_risk_Inl score_risk_Inr)

lemma combine_no_images:
  assumes "rs \<noteq> []"
  shows "map_result (combine_row []) rs = Inl KeyError"
  using assms by (cases rs) (auto simp: combine_row_def matching_rows_def)

lemma combine_all_ok:
  assumes "results \<noteq> []"
  shows "\<not> isl (map_result (combine_row image_df) results) \<longleftrightarrow>
           image_df \<noteq> [] \<and>
           list_all (\<lambda>r. length (filter (contains_id (property_id r)) image_df) \<le> 1) results"
proof -
  have "\<not> isl (map_result (combine_row image_df) results) \<longleftrightarrow>
          list_all (\<lambda>r. image_df \<noteq> [] \<and> length (filter (contains_id (property_id r)) image_df) \<le> 1) results"
    by (simp only: map_result_ok combine_row_isl)
  also have "\<dots> \<longleftrightarrow> image_df \<noteq> [] \<and>
               list_all (\<lambda>r. length (filter (contains_id (property_id r)) image_df) \<le> 1) results"
    using assms by (cases results) auto
  finally show ?thesis .
qed

lemma length_filter_contains_id:
  "map image_file image_df = files \<Longrightarrow>
     length (filter (contains_id p) image_df) = length (filter (sublist p) files)"
proof -
  have "contains_id p = (\<lambda>row. sublist p (image_file row))"
    by (rule ext) (simp add: contains_id_def)
  then show "map image_file image_df = files \<Longrightarrow>
      length (filter (contains_id p) image_df) = length (filter (sublist p) files)"
    by (auto simp: filter_map comp_def)
qed

lemma score_report_property_id:
  assumes "score_report t = Inr r"
  shows "property_id r = property_id (parse_report t)"
proof -
  from assms have "property_record.truncate r = parse_report t" by (simp add: score_report_Inr)
  then have "property_id (property_record.truncate r) = property_id (parse_report t)"
    by (rule arg_cong [where f = property_id])
  then show ?thesis by (simp add: property_record.defs)
qed

lemma main_run_row_sources:
  assumes "main_run report_file listing ocr = Inr rows"
  obtains image_results where "analyze_images ocr listing = Inr image_results"
    and "list_all (\<lambda>row. \<exists>t r. score_report t = Inr r \<and> combine_row image_results r = Inr row) rows"
proof -
  let ?reports = "split_acc report_sep [] report_file"
  from assms obtain results image_results where
    sc: "map_result score_report ?reports = Inr results" and
    im: "analyze_images ocr listing = Inr image_results" and
    cb: "map_result (combine_row image_results) results = Inr rows"
    by (rule main_run_Inr)
  from sc have "list_all (\<lambda>r. \<exists>t\<in>set ?reports. score_report t = Inr r) results"
    by (intro list_all2_ex_right) (simp add: map_result_Inr)
  moreover from cb have "list_all (\<lambda>row. \<exists>r\<in>set results. combine_row image_results r = Inr row) rows"
    by (intro list_all2_ex_right) (simp add: map_result_Inr)
  ultimately have "list_all (\<lambda>row. \<exists>t r. score_report t = Inr r \<and> combine_row image_results r = Inr row) rows"
    by (fastforce simp: list_all_iff)
  with im show ?thesis by (rule that)
qed

section \<open>Properties\<close>

text \<open>
  C1: a run that returns has one row per report of the file, in order: each row
  holds the fields \<^verbatim>\<open>parse_report\<close> extracted from its report; its text
  score and reasons are those of \<^verbatim>\<open>score_risk\<close>; its total is the text
  score plus the image score; its level and decision are \<^verbatim>\<open>classify_risk\<close>
  of the total.
\<close>

theorem main_run_rows:
  assumes "main_run report_file listing ocr = Inr rows"
  shows "map property_record.truncate rows = map parse_report (split_acc report_sep [] report_file) \<and>
         list_all row_consistent rows"
proof -
  let ?reports = "split_acc report_sep [] report_file"
  from assms obtain results image_results where
    sc: "map_result score_report ?reports = Inr results" and
    cb: "map_result (combine_row image_results) results = Inr rows"
    by (rule main_run_Inr)
  from sc have r1: "list_all2 (\<lambda>t r. score_report t = Inr r) ?reports results"
    by (simp add: map_result_Inr)
  from cb have r2: "list_all2 (\<lambda>r row. combine_row image_results r = Inr row) results rows"
    by (simp add: map_result_Inr)
  from list_all2_compose [OF r1 r2]
  have "list_all2 (\<lambda>t row. property_record.truncate row = parse_report t \<and> row_consistent row)
          ?reports rows"
    by (rule list_all2_mono) (auto dest: combine_row_consistent)
  then show ?thesis by (rule list_all2_map_eq)
qed

theorem main_run_rows_witness:
  "main_run ''Property ID: 5\<newline>Year Built: 2001'' [''5.png''] (\<lambda>f. Inr ''leak'') =
     Inr [\<lparr>property_id = ''5'', location = ''N/A'', year_built = ''2001'', condition = ''N/A'',
           estimated_value = ''N/A'', hazards = ''N/A'', risk_score = 0, risk_factors = [],
           row_image_file = ''5.png'', row_image_ocr_text = ''leak'', row_image_risk_score = 2,
           row_image_risk_factors = ''Leakage mentioned'', total_risk_score = 2,
           row_risk_level = Low, underwriting_decision = Approve\<rparr>] \<and>
   list_all row_consistent
     [\<lparr>property_id = ''5'', location = ''N/A'', year_built = ''2001'', condition = ''N/A'',
       estimated_value = ''N/A'', hazards = ''N/A'', risk_score = 0, risk_factors = [],
       row_image_file = ''5.png'', row_image_ocr_text = ''leak'', row_image_risk_score = 2,
       row_image_risk_factors = ''Leakage mentioned'', total_risk_score = 2,
       row_risk_level = Low, underwriting_decision = Approve\<rparr>]"
proof -
  have run: "main_run ''Property ID: 5\<newline>Year Built: 2001'' [''5.png''] (\<lambda>f. Inr ''leak'') =
     Inr [\<lparr>property_id = ''5'', location = ''N/A'', year_built = ''2001'', condition = ''N/A'',
           estimated_value = ''N/A'', hazards = ''N/A'', risk_score = 0, risk_factors = [],
           row_image_file = ''5.png'', row_image_ocr_text = ''leak'', row_image_risk_score = 2,
           row_image_risk_factors = ''Leakage mentioned'', total_risk_score = 2,
           row_risk_level = Low, underwriting_decision = Approve\<rparr>]"
    by (simp add: py_eval)
  show ?thesis using run main_run_rows [OF run] by simp
qed

text \<open>
  C5: a report whose id occurs in exactly one image file name is merged with that
  image: the row takes the image's file, text, score and reasons, its total is the
  text score plus the image score, and it is classified on that total.
\<close>

theorem combine_row_single_match:
  assumes "filter (contains_id (property_id r)) image_df = [m]"
  shows "combine_row image_df r =
           Inr (scored_report.extend r
                  (final_row.fields (image_file m) (ocr_text m) (image_risk_score m)
                     (image_risk_factors m) (risk_score r + image_risk_score m)
                     (fst (classify_risk (risk_score r + image_risk_score m)))
                     (snd (classify_risk (risk_score r + image_risk_score m)))))"
proof -
  from assms have "image_df \<noteq> []" by auto
  with assms show ?thesis by (simp add: combine_row_def matching_rows_def Let_def case_prod_beta)
qed

theorem combine_row_single_match_witness:
  "filter (contains_id ''1023'') [\<lparr>image_file = ''1023_front.jpg'', ocr_text = ''crack'',
      image_risk_score = 3, image_risk_factors = ''Cracks detected''\<rparr>,
    \<lparr>image_file = ''9999.png'', ocr_text = [], image_risk_score = 0, image_risk_factors = []\<rparr>] =
     [\<lparr>image_file = ''1023_front.jpg'', ocr_text = ''crack'',
       image_risk_score = 3, image_risk_factors = ''Cracks detected''\<rparr>] \<and>
   total_risk_score (projr (combine_row
     [\<lparr>image_file = ''1023_front.jpg'', ocr_text = ''crack'',
        image_risk_score = 3, image_risk_factors = ''Cracks detected''\<rparr>,
      \<lparr>image_file = ''9999.png'', ocr_text = [], image_risk_score = 0, image_risk_factors = []\<rparr>]
     \<lparr>property_id = ''1023'', location = ''N/A'', year_built = ''2010'', condition = ''N/A'',
      estimated_value = ''N/A'', hazards = ''Flood'', risk_score = 4, risk_factors = ''Flood risk''\<rparr>)) = 7"
proof -
  have flt: "filter (contains_id (property_id \<lparr>property_id = ''1023'', location = ''N/A'', year_built = ''2010'',
      condition = ''N/A'', estimated_value = ''N/A'', hazards = ''Flood'', risk_score = 4,
      risk_factors = ''Flood risk''\<rparr>))
    [\<lparr>image_file = ''1023_front.jpg'', ocr_text = ''crack'',
        image_risk_score = 3, image_risk_factors = ''Cracks detected''\<rparr>,
      \<lparr>image_file = ''9999.png'', ocr_text = [], image_risk_score = 0, image_risk_factors = []\<rparr>] =
     [\<lparr>image_file = ''1023_front.jpg'', ocr_text = ''crack'',
       image_risk_score = 3, image_risk_factors = ''Cracks detected''\<rparr>]"
    by (simp add: py_eval)
  show ?thesis using flt combine_row_single_match [OF flt] by (simp add: final_row.defs scored_report.defs)
qed

text \<open>
  C6: a report whose id occurs in no image file name (the table being non-empty)
  keeps its text score: the row has image file "N/A", empty text and reasons,
  image score 0, and total equal to the text score.
\<close>

theorem combine_row_no_match:
  assumes "image_df \<noteq> []" and "filter (contains_id (property_id r)) image_df = []"
  shows "combine_row image_df r =
           Inr (scored_report.extend r
                  (final_row.fields ''N/A'' [] 0 [] (risk_score r)
                     (fst (classify_risk (risk_score r))) (snd (classify_risk (risk_score r)))))"
  using assms by (simp add: combine_row_def matching_rows_def Let_def case_prod_beta)

theorem combine_row_no_match_witness:
  "[\<lparr>image_file = ''9999.png'', ocr_text = [], image_risk_score = 0, image_risk_factors = []\<rparr>] \<noteq> [] \<and>
   filter (contains_id ''42'')
     [\<lparr>image_file = ''9999.png'', ocr_text = [], image_risk_score = 0, image_risk_factors = []\<rparr>] = [] \<and>
   row_image_risk_score (projr (combine_row
     [\<lparr>image_file = ''9999.png'', ocr_text = [], image_risk_score = 0, image_risk_factors = []\<rparr>]
     \<lparr>property_id = ''42'', location = ''N/A'', year_built = ''1985'', condition = ''N/A'',
      estimated_value = ''N/A'', hazards = ''N/A'', risk_score = 2, risk_factors = ''Old construction''\<rparr>)) = 0"
proof -
  have ne: "[\<lparr>image_file = ''9999.png'', ocr_text = [], image_risk_score = 0, image_risk_factors = []\<rparr>] \<noteq> []"
    by simp
  have flt: "filter (contains_id (property_id \<lparr>property_id = ''42'', location = ''N/A'', year_built = ''1985'',
      condition = ''N/A'', estimated_value = ''N/A'', hazards = ''N/A'', risk_score = 2,
      risk_factors = ''Old construction''\<rparr>))
     [\<lparr>image_file = ''9999.png'', ocr_text = [], image_risk_score = 0, image_risk_factors = []\<rparr>] = []"
    by (simp add: py_eval)
  show ?thesis using ne flt combine_row_no_match [OF ne flt] by (simp add: final_row.defs scored_report.defs)
qed

text \<open>
  C11: a report whose id occurs in two or more image file names makes the run fail
  with \<open>ValueError\<close> (the squeezed selection stays a DataFrame and the
  classifier compares a Series); the specification expected a deterministic choice.
\<close>

theorem combine_row_ambiguous:
  assumes "2 \<le> length (filter (contains_id (property_id r)) image_df)"
  shows "combine_row image_df r = Inl ValueError"
proof -
  from assms obtain a b c where "filter (contains_id (property_id r)) image_df = a # b # c"
    by (cases "filter (contains_id (property_id r)) image_df" rule: remdups_adj.cases) auto
  moreover from assms have "image_df \<noteq> []" by auto
  ultimately show ?thesis by (simp add: combine_row_def matching_rows_def)
qed

theorem combine_row_ambiguous_witness:
  "2 \<le> length (filter (contains_id ''1'')
     [\<lparr>image_file = ''1_front.jpg'', ocr_text = [], image_risk_score = 0, image_risk_factors = []\<rparr>,
      \<lparr>image_file = ''10.png'', ocr_text = [], image_risk_score = 0, image_risk_factors = []\<rparr>]) \<and>
   combine_row
     [\<lparr>image_file = ''1_front.jpg'', ocr_text = [], image_risk_score = 0, image_risk_factors = []\<rparr>,
      \<lparr>image_file = ''10.png'', ocr_text = [], image_risk_score = 0, image_risk_factors = []\<rparr>]
     \<lparr>property_id = ''1'', location = ''N/A'', year_built = ''1999'', condition = ''N/A'',
      estimated_value = ''N/A'', hazards = ''N/A'', risk_score = 2, risk_factors = ''Old construction''\<rparr> =
   Inl ValueError"
proof -
  have two: "2 \<le> length (filter (contains_id (property_id \<lparr>property_id = ''1'', location = ''N/A'',
      year_built = ''1999'', condition = ''N/A'', estimated_value = ''N/A'', hazards = ''N/A'',
      risk_score = 2, risk_factors = ''Old construction''\<rparr>))
     [\<lparr>image_file = ''1_front.jpg'', ocr_text = [], image_risk_score = 0, image_risk_factors = []\<rparr>,
      \<lparr>image_file = ''10.png'', ocr_text = [], image_risk_score = 0, image_risk_factors = []\<rparr>])"
    by (simp add: py_eval)
  show ?thesis using two combine_row_ambiguous [OF two] by simp
qed

text \<open>
  C12: when the image directory holds no file with a supported extension, the
  run cannot succeed: once the reports are scored, looking up the image table's
  "Image File" column raises \<open>KeyError\<close>.
\<close>

theorem main_run_no_images:
  assumes "filter supported_image listing = []"
  shows "main_run report_file listing ocr =
           (case map_result score_report (split_acc report_sep [] report_file) of
              Inl e \<Rightarrow> Inl e
            | Inr _ \<Rightarrow> Inl KeyError)"
proof -
  have im: "analyze_images ocr listing = Inr []"
    using assms by (simp add: analyze_images_map)
  show ?thesis
  proof (cases "map_result score_report (split_acc report_sep [] report_file)")
    case (Inl e)
    then show ?thesis by (simp add: main_run_def load_reports_split append_loop_Nil)
  next
    case (Inr results)
    from map_result_length [OF Inr] have "results \<noteq> []" by (cases results) auto
    with Inr im show ?thesis
      by (simp add: main_run_def load_reports_split append_loop_Nil combine_no_images)
  qed
qed

theorem main_run_no_images_witness:
  "filter supported_image [''readme.txt''] = [] \<and>
   main_run ''Property ID: 3\<newline>Year Built: 1990'' [''readme.txt''] (\<lambda>f. Inr []) = Inl KeyError"
proof -
  have none: "filter supported_image [''readme.txt''] = []" by (simp add: py_eval)
  have "\<not> isl (map_result score_report (split_acc report_sep [] ''Property ID: 3\<newline>Year Built: 1990''))"
    by (simp add: map_result_ok score_report_ok py_eval)
  then obtain rs where
    rs: "map_result score_report (split_acc report_sep [] ''Property ID: 3\<newline>Year Built: 1990'') = Inr rs"
    by (cases "map_result score_report (split_acc report_sep [] ''Property ID: 3\<newline>Year Built: 1990'')") auto
  show ?thesis
    using none rs main_run_no_images [OF none, of "''Property ID: 3\<newline>Year Built: 1990''" "\<lambda>f. Inr []"]
    by simp
qed

text \<open>
  C13: a report without a Year Built line makes the run fail with
  \<open>ValueError\<close>, whatever the images and the OCR engine: all reports are
  scored before any image is read.
\<close>

theorem main_run_missing_year:
  assumes "t \<in> set (split_acc report_sep [] report_file)"
    and "year_built (parse_report t) = ''N/A''"
  shows "main_run report_file listing ocr = Inl ValueError"
proof -
  have "isl (map_result score_report (split_acc report_sep [] report_file))"
    using assms map_result_ok [of score_report] score_report_ok by (auto simp: list_all_iff)
  then obtain e where e: "map_result score_report (split_acc report_sep [] report_file) = Inl e"
    by (cases "map_result score_report (split_acc report_sep [] report_file)") auto
  then obtain t' where "score_report t' = Inl e" using map_result_Inl_elem by blast
  then have "e = ValueError" using score_report_error by blast
  with e show ?thesis by (simp add: main_run_def load_reports_split append_loop_Nil)
qed

theorem main_run_missing_year_witness:
  "''Property ID: 9'' \<in> set (split_acc report_sep [] ''Property ID: 9'') \<and>
   year_built (parse_report ''Property ID: 9'') = ''N/A'' \<and>
   main_run ''Property ID: 9'' [''9.jpg''] (\<lambda>f. Inl TypeError) = Inl ValueError"
proof -
  have mem: "''Property ID: 9'' \<in> set (split_acc report_sep [] ''Property ID: 9'')"
    by (simp add: py_eval)
  have na: "year_built (parse_report ''Property ID: 9'') = ''N/A''" by (simp add: py_eval)
  show ?thesis using mem na main_run_missing_year [OF mem na] by simp
qed

text \<open>
  C7: the run returns rows exactly when every report has a Year Built line, the
  OCR engine reads every file with a supported extension, there is at least one
  such file, and no report's id occurs in the names of two of them.
\<close>

theorem main_run_succeeds_iff:
  "\<not> isl (main_run report_file listing ocr) \<longleftrightarrow>
     list_all (\<lambda>t. year_built (parse_report t) \<noteq> ''N/A'') (split_acc report_sep [] report_file) \<and>
     list_all (\<lambda>f. \<not> isl (ocr f)) (filter supported_image listing) \<and>
     filter supported_image listing \<noteq> [] \<and>
     list_all (\<lambda>t. length (filter (sublist (property_id (parse_report t))) (filter supported_image listing)) \<le> 1)
       (split_acc report_sep [] report_file)"
  (is "_ \<longleftrightarrow> ?years \<and> ?ocr \<and> ?some \<and> ?unique")
proof -
  let ?reports = "split_acc report_sep [] report_file"
  let ?files = "filter supported_image listing"
  have sc: "\<not> isl (map_result score_report ?reports) \<longleftrightarrow> ?years"
    by (simp add: map_result_ok score_report_ok)
  have im: "\<not> isl (analyze_images ocr listing) \<longleftrightarrow> ?ocr"
    by (simp add: analyze_images_map map_result_ok scan_image_isl)
  show ?thesis
  proof (cases "map_result score_report ?reports")
    case (Inl e)
    with sc show ?thesis by (simp add: main_run_def load_reports_split append_loop_Nil)
  next
    case (Inr results)
    note scored = Inr
    show ?thesis
    proof (cases "analyze_images ocr listing")
      case (Inl e)
      with scored sc im show ?thesis by (simp add: main_run_def load_reports_split append_loop_Nil)
    next
      case (Inr image_df)
      have files: "map image_file image_df = ?files"
        using Inr by (rule analyze_images_files)
      have rel: "list_all2 (\<lambda>t r. score_report t = Inr r) ?reports results"
        using scored by (simp add: map_result_Inr)
      have ne: "results \<noteq> []"
        using map_result_length [OF scored] by (cases results) auto
      have some: "image_df \<noteq> [] \<longleftrightarrow> ?some"
        using files by auto
      have uniq: "list_all (\<lambda>r. length (filter (contains_id (property_id r)) image_df) \<le> 1) results
                  \<longleftrightarrow> ?unique"
      proof (rule list_all2_list_all_iff [OF rel, symmetric])
        fix t r
        assume "score_report t = Inr r"
        then show "length (filter (sublist (property_id (parse_report t))) ?files) \<le> 1 \<longleftrightarrow>
                   length (filter (contains_id (property_id r)) image_df) \<le> 1"
          using length_filter_contains_id [OF files] score_report_property_id by metis
      qed
      from scored Inr sc im combine_all_ok [OF ne, of image_df] some uniq show ?thesis
        by (simp add: main_run_def load_reports_split append_loop_Nil)
    qed
  qed
qed

theorem main_run_succeeds_iff_witness:
  "\<not> isl (main_run ''Property ID: 7\<newline>Year Built: 1950'' [''7.png'', ''8.png''] (\<lambda>f. Inr ''leak''))"
  by (rule main_run_succeeds_iff [THEN iffD2]) (simp add: py_eval)

end
