(* ===== verification/ReportRender.thy ===== *)
theory ReportRender
  imports ReportParser
begin

text \<open>
  A printer for the records \<^verbatim>\<open>parse_report\<close> returns, and the round trip:
  printing a record as a report (one line \<open>Label: value\<close> per field that is not
  \<^verbatim>\<open>"N/A"\<close>, in the order of the dictionary, the value line with a
  \<^verbatim>\<open>$\<close> before the amount) and parsing the text with \<^verbatim>\<open>parse_report\<close>
  (\<^verbatim>\<open>src/app.py\<close> lines 50-62) gives the record back. The printer is the
  specification's report format, not code of the program. The round trip holds for
  the records whose values have the shapes the patterns capture and contain none of
  the six labels (\<open>report_ok\<close>): a value holding a label, such as a condition
  \<^verbatim>\<open>"see Hazards: below"\<close>, would be found by the search for that label.

  The proof follows the search: the lines before a field's line do not contain its
  label, so \<^verbatim>\<open>re.search\<close> skips them (\<open>re_search_join_skip\<close>); at the
  field's line the first alternative of every item fixes the group
  (\<open>match_at_label\<close>); a field left out is not found anywhere.
\<close>

section \<open>The printer\<close>

text \<open>The six labels as the patterns spell them; each field as its label, the
  separator after the label and the value; the printed report.\<close>

definition field_labels :: "string list" where
  "field_labels = [''Property ID:'', ''Location:'', ''Year Built:'', ''Condition:'', ''Estimated Value:'', ''Hazards:'']"

definition report_fields :: "property_record \<Rightarrow> (string \<times> string \<times> string) list" where
  "report_fields r =
     [(''Property ID:'', '' '', property_id r), (''Location:'', '' '', location r),
      (''Year Built:'', '' '', year_built r), (''Condition:'', '' '', condition r),
      (''Estimated Value:'', '' $'', estimated_value r), (''Hazards:'', '' '', hazards r)]"

fun field_line :: "string \<times> string \<times> string \<Rightarrow> string list" where
  "field_line (l, s, v) = (if v = ''N/A'' then [] else [l @ s @ v])"

definition render_report :: "property_record \<Rightarrow> string" where
  "render_report r = py_join ''\<newline>'' (concat (map field_line (report_fields r)))"

text \<open>The records the printer and the parser agree on: values of the shapes the
  patterns capture, free text on one line without surrounding white space, and no
  value containing a label.\<close>

definition label_free :: "string \<Rightarrow> bool" where
  "label_free v \<longleftrightarrow> list_all (\<lambda>l. \<not> ci_occurs l v) field_labels"

definition text_shape :: "string \<Rightarrow> bool" where
  "text_shape v \<longleftrightarrow> v = ''N/A'' \<or> (v \<noteq> [] \<and> line_shape v \<and> label_free v)"

definition report_ok :: "property_record \<Rightarrow> bool" where
  "report_ok r \<longleftrightarrow>
     id_shape (property_id r) \<and> text_shape (location r) \<and> year_shape (year_built r) \<and>
     text_shape (condition r) \<and> value_shape (estimated_value r) \<and> text_shape (hazards r)"

section \<open>Lemmas\<close>

subsection \<open>Labels in lines\<close>

lemma labels_nl_free:
  "l \<in> set field_labels \<Longrightarrow> l \<noteq> [] \<and> (\<forall>p\<in>set l. \<not> ci_eq p CHR 0x0A)"
  by (auto simp: field_labels_def ci_eq_def lower_label_chars)

text \<open>A label occurs in the line of another field only inside its value.\<close>

lemma label_other_line:
  assumes "l \<in> set field_labels" "l2 \<in> set field_labels" "l \<noteq> l2" "s \<in> {'' '', '' $''}"
  shows "ci_occurs l (l2 @ s @ v) \<longleftrightarrow> ci_occurs l v"
  using assms unfolding field_labels_def set_simps insert_iff empty_iff simp_thms
  by (elim disjE; simp add: ci_eq_def lower_label_chars)

lemma ci_occurs_class_free:
  "list_all P v \<Longrightarrow> (\<And>c. P c \<Longrightarrow> \<not> ci_eq p c) \<Longrightarrow> \<not> ci_occurs (p # ps) v"
  by (induction v) auto

lemma digits_label_free:
  assumes "list_all (in_class DigitOrComma) v"
  shows "label_free v"
proof -
  have low: "py_lower_char c = c" if "in_class DigitOrComma c" for c
    using that by (auto simp: py_lower_char_def py_isdigit_def)
  have "\<not> ci_occurs (p # ps) v" if "p \<in> {CHR ''P'', CHR ''L'', CHR ''Y'', CHR ''C'', CHR ''E'', CHR ''H''}" for p ps
  proof (rule ci_occurs_class_free [OF assms])
    fix c
    assume "in_class DigitOrComma c"
    then have "py_lower_char c = c" and "py_isdigit c \<or> c = CHR '',''" by (auto simp: low)
    with that show "\<not> ci_eq p c" by (auto simp: ci_eq_def lower_label_chars py_isdigit_def)
  qed
  then show ?thesis by (simp add: label_free_def field_labels_def)
qed

subsection \<open>Searching the lines\<close>

lemma ci_occurs_join:
  assumes "l \<noteq> []" and "\<forall>p\<in>set l. \<not> ci_eq p CHR 0x0A"
  shows "ci_occurs l (py_join ''\<newline>'' xs) \<longleftrightarrow> (\<exists>x\<in>set xs. ci_occurs l x)"
proof (induction xs)
  case Nil
  then show ?case using assms by (simp add: ci_occurs_Nil)
next
  case (Cons x xs)
  then show ?case using ci_occurs_append_stop [OF assms, of x] by (simp add: py_join_Cons)
qed

lemma re_search_join_skip:
  assumes "\<forall>x\<in>set A. \<not> ci_occurs l x" and "\<forall>p\<in>set l. \<not> ci_eq p CHR 0x0A"
  shows "re_search (map Lit l @ opt, grp) (py_join ''\<newline>'' (A @ y # B)) =
           re_search (map Lit l @ opt, grp) (py_join ''\<newline>'' (y # B))"
  using assms(1)
proof (induction A)
  case Nil
  then show ?case by simp
next
  case (Cons a A)
  then have "re_search (map Lit l @ opt, grp) (a @ CHR 0x0A # py_join ''\<newline>'' (A @ y # B)) =
             re_search (map Lit l @ opt, grp) (py_join ''\<newline>'' (A @ y # B))"
    using assms(2) by (intro re_search_skip) simp_all
  with Cons show ?case by (simp add: py_join_Cons)
qed

lemma join_tail: "\<exists>rest. py_join ''\<newline>'' (y # B) = y @ rest \<and> (rest = [] \<or> hd rest = CHR 0x0A)"
  by (cases B) (simp_all add: py_join_Cons)

text \<open>One field of a printed report: the lines of the other fields do not hold
  its label, and its own line, followed by the end of the text or a newline, matches
  with the value as the group.\<close>

lemma extract_rendered_field:
  assumes others: "\<forall>x\<in>set (concat (map field_line (F1 @ F2))). \<not> ci_occurs l x"
    and l: "l \<noteq> []" "\<forall>p\<in>set l. \<not> ci_eq p CHR 0x0A"
    and own: "\<And>rest. v \<noteq> ''N/A'' \<Longrightarrow> rest = [] \<or> hd rest = CHR 0x0A \<Longrightarrow>
                  match_at (map Lit l @ opt, grp) (l @ s @ v @ rest) = Some v"
    and strip: "py_strip v = v"
  shows "extract_field (py_join ''\<newline>'' (concat (map field_line (F1 @ (l, s, v) # F2))))
           (map Lit l @ opt, grp) ''N/A'' = v"
proof (cases "v = ''N/A''")
  case True
  then have "\<not> ci_occurs l (py_join ''\<newline>'' (concat (map field_line (F1 @ (l, s, v) # F2))))"
    using others by (simp add: ci_occurs_join [OF l])
  with True show ?thesis by (simp add: extract_field_def re_search_absent)
next
  case False
  let ?A = "concat (map field_line F1)" and ?B = "concat (map field_line F2)"
  have lines: "concat (map field_line (F1 @ (l, s, v) # F2)) = ?A @ (l @ s @ v) # ?B"
    using False by simp
  obtain rest where rest: "py_join ''\<newline>'' ((l @ s @ v) # ?B) = (l @ s @ v) @ rest"
    and r: "rest = [] \<or> hd rest = CHR 0x0A" using join_tail by blast
  have "\<forall>x\<in>set ?A. \<not> ci_occurs l x" using others by simp
  then have "re_search (map Lit l @ opt, grp) (py_join ''\<newline>'' (?A @ (l @ s @ v) # ?B)) =
             re_search (map Lit l @ opt, grp) ((l @ s @ v) @ rest)"
    using re_search_join_skip [OF _ l(2)] rest by simp
  also have "\<dots> = Some v"
    using own [OF False r] l(1) by (intro re_search_here) simp_all
  finally show ?thesis using lines strip by (simp add: extract_field_def)
qed

subsection \<open>The line of one field\<close>

lemma space_isspace [simp]: "py_isspace CHR '' ''"
  by (simp add: py_isspace_def)

lemma dollar_not_space [simp]: "\<not> py_isspace CHR ''$''"
  by (simp add: py_isspace_def)

lemma plus_line:
  assumes "v \<noteq> []" "\<not> py_isspace (hd v)" "list_all (in_class k) v" "\<not> in_class k CHR 0x0A"
    and "rest = [] \<or> hd rest = CHR 0x0A"
  shows "match_at (map Lit l @ [Star Space], [Plus k]) (l @ '' '' @ v @ rest) = Some v"
proof (rule match_at_label)
  show "\<exists>ts. seq_alts [Plus k] (v @ rest) = rest # ts"
    using assms by (intro seq_alts_plus_first) auto
qed (use assms in simp_all)

lemma rep_line:
  assumes "length v = 4" "list_all py_isdigit v"
  shows "match_at (map Lit l @ [Star Space], [Rep 4 Digit]) (l @ '' '' @ v @ rest) = Some v"
proof (rule match_at_label)
  show "\<exists>ts. seq_alts [Rep 4 Digit] (v @ rest) = rest # ts"
    using assms by (simp add: seq_alts_rep_first)
  show "v @ rest \<noteq> []" using assms(1) by auto
  show "\<not> py_isspace (hd (v @ rest))" using assms by (cases v) auto
qed simp_all

lemma value_line:
  assumes "v \<noteq> []" "list_all (in_class DigitOrComma) v" and "rest = [] \<or> hd rest = CHR 0x0A"
  shows "match_at (map Lit l @ [Star Space, Opt CHR ''$''], [Plus DigitOrComma]) (l @ '' $'' @ v @ rest) = Some v"
proof -
  have "match_at (map Lit l @ Star Space # [Opt CHR ''$''], [Plus DigitOrComma]) (l @ '' '' @ CHR ''$'' # v @ rest) = Some v"
  proof (rule match_at_label)
    show "\<exists>ts. seq_alts [Opt CHR ''$''] (CHR ''$'' # v @ rest) = (v @ rest) # ts"
      by (rule seq_alts_opt_first) simp
    show "\<exists>ts. seq_alts [Plus DigitOrComma] (v @ rest) = rest # ts"
      using assms by (intro seq_alts_plus_first) auto
  qed simp_all
  then show ?thesis by simp
qed

subsection \<open>The other lines\<close>

lemma report_fields_labels: "map fst (report_fields r) = field_labels"
  by (simp add: report_fields_def field_labels_def)

lemma report_ok_fields:
  assumes "report_ok r"
  shows "\<forall>(l2, s2, v2) \<in> set (report_fields r). s2 \<in> {'' '', '' $''} \<and> (v2 = ''N/A'' \<or> label_free v2)"
proof -
  have dig: "label_free v" if "list_all py_isdigit v" for v
    using that by (intro digits_label_free) (simp add: list_all_iff)
  from assms show ?thesis
    by (auto simp: report_fields_def report_ok_def id_shape_def year_shape_def value_shape_def
        text_shape_def dig digits_label_free)
qed

lemma field_labels_split:
  assumes "report_fields r = F1 @ (l, s, v) # F2"
  shows "l \<in> set field_labels \<and> l \<notin> fst ` set (F1 @ F2) \<and> fst ` set (F1 @ F2) \<subseteq> set field_labels"
proof -
  have eq: "field_labels = map fst F1 @ l # map fst F2"
    using assms report_fields_labels [of r] by simp
  have "distinct field_labels" by (simp add: field_labels_def)
  then have "distinct (map fst F1 @ l # map fst F2)" by (simp only: eq)
  then show ?thesis unfolding eq by (fastforce simp: image_iff)
qed

lemma others_free:
  assumes "report_ok r" and split: "report_fields r = F1 @ (l, s, v) # F2"
  shows "\<forall>x\<in>set (concat (map field_line (F1 @ F2))). \<not> ci_occurs l x"
proof
  fix x
  assume "x \<in> set (concat (map field_line (F1 @ F2)))"
  then obtain y where "y \<in> set (F1 @ F2)" and "x \<in> set (field_line y)"
    unfolding set_concat set_map by blast
  then obtain l2 s2 v2 where mem: "(l2, s2, v2) \<in> set (F1 @ F2)" and x: "x \<in> set (field_line (l2, s2, v2))"
    by (cases y rule: prod_cases3) blast
  have labs: "l \<in> set field_labels" "l \<notin> fst ` set (F1 @ F2)" "fst ` set (F1 @ F2) \<subseteq> set field_labels"
    using field_labels_split [OF split] by blast+
  have l2: "l2 \<in> set field_labels" "l \<noteq> l2"
    using labs mem by (force, force)
  have "(l2, s2, v2) \<in> set (report_fields r)" using split mem by auto
  then have s2: "s2 \<in> {'' '', '' $''}" and v2: "v2 = ''N/A'' \<or> label_free v2"
    using report_ok_fields [OF assms(1)] by auto
  from x have x2: "x = l2 @ s2 @ v2" and "v2 \<noteq> ''N/A''" by (auto split: if_splits)
  with v2 have "\<not> ci_occurs l v2" using labs(1) by (simp add: label_free_def list_all_iff)
  then show "\<not> ci_occurs l x"
    using label_other_line [OF labs(1) l2 s2] x2 by simp
qed

lemma extract_report_field:
  assumes ok: "report_ok r" and split: "report_fields r = F1 @ (l, s, v) # F2"
    and own: "\<And>rest. v \<noteq> ''N/A'' \<Longrightarrow> rest = [] \<or> hd rest = CHR 0x0A \<Longrightarrow>
                  match_at (map Lit l @ opt, grp) (l @ s @ v @ rest) = Some v"
    and strip: "py_strip v = v"
  shows "extract_field (render_report r) (map Lit l @ opt, grp) ''N/A'' = v"
proof -
  have "l \<in> set field_labels" using field_labels_split [OF split] by blast
  then have l: "l \<noteq> []" "\<forall>p\<in>set l. \<not> ci_eq p CHR 0x0A" using labels_nl_free by blast+
  show ?thesis
    unfolding render_report_def split
    by (rule extract_rendered_field [OF others_free [OF ok split] l own strip])
qed

lemma extract_report_nth:
  assumes ok: "report_ok r" and i: "i < length (report_fields r)"
    and nth: "report_fields r ! i = (l, s, v)"
    and own: "\<And>rest. v \<noteq> ''N/A'' \<Longrightarrow> rest = [] \<or> hd rest = CHR 0x0A \<Longrightarrow>
                  match_at (map Lit l @ opt, grp) (l @ s @ v @ rest) = Some v"
    and strip: "py_strip v = v"
  shows "extract_field (render_report r) (map Lit l @ opt, grp) ''N/A'' = v"
proof (rule extract_report_field [OF ok _ own strip])
  show "report_fields r = take i (report_fields r) @ (l, s, v) # drop (Suc i) (report_fields r)"
    using id_take_nth_drop [OF i] nth by simp
qed

subsection \<open>The shapes of the values\<close>

lemma py_strip_NA: "py_strip ''N/A'' = ''N/A''"
  by (simp add: py_strip_def py_isspace_def)

lemma text_shape_line:
  assumes "text_shape v" and "v \<noteq> ''N/A''" and "rest = [] \<or> hd rest = CHR 0x0A"
  shows "match_at (map Lit l @ [Star Space], [Plus NotNewline]) (l @ '' '' @ v @ rest) = Some v"
proof (rule plus_line)
  from assms(1,2) have v: "v \<noteq> []" "CHR 0x0A \<notin> set v" "py_strip v = v"
    by (auto simp: text_shape_def line_shape_def)
  show "v \<noteq> []" by (fact v(1))
  show "\<not> py_isspace (hd v)" using v(1,3) py_strip_hd [of v "hd v" "tl v"] by simp
  show "list_all (in_class NotNewline) v" using v(2) by (auto simp: list_all_iff)
qed (use assms(3) in simp_all)

lemma text_shape_strip: "text_shape v \<Longrightarrow> py_strip v = v"
  by (auto simp: text_shape_def line_shape_def py_strip_NA)

lemma id_shape_line:
  assumes "id_shape v" and "v \<noteq> ''N/A''" and "rest = [] \<or> hd rest = CHR 0x0A"
  shows "match_at (map Lit l @ [Star Space], [Plus Digit]) (l @ '' '' @ v @ rest) = Some v"
proof (rule plus_line)
  from assms(1,2) have v: "v \<noteq> []" "list_all py_isdigit v" by (auto simp: id_shape_def)
  then show "v \<noteq> []" "\<not> py_isspace (hd v)" "list_all (in_class Digit) v"
    by (cases v; simp)+
qed (use assms(3) in \<open>auto simp: py_isdigit_def\<close>)

lemma id_shape_strip: "id_shape v \<Longrightarrow> py_strip v = v"
  unfolding id_shape_def
proof (elim disjE conjE)
  assume "v \<noteq> []" "list_all py_isdigit v"
  then show ?thesis by (rule strip_no_space_class) simp
qed (simp add: py_strip_NA)

lemma year_shape_line:
  assumes "year_shape v" and "v \<noteq> ''N/A''"
  shows "match_at (map Lit l @ [Star Space], [Rep 4 Digit]) (l @ '' '' @ v @ rest) = Some v"
  using assms by (intro rep_line) (auto simp: year_shape_def)

lemma year_shape_strip: "year_shape v \<Longrightarrow> py_strip v = v"
  unfolding year_shape_def
proof (elim disjE conjE)
  assume "length v = 4" "list_all py_isdigit v"
  then show ?thesis by (intro strip_no_space_class [of v py_isdigit]) auto
qed (simp add: py_strip_NA)

lemma value_shape_line:
  assumes "value_shape v" and "v \<noteq> ''N/A''" and "rest = [] \<or> hd rest = CHR 0x0A"
  shows "match_at (map Lit l @ [Star Space, Opt CHR ''$''], [Plus DigitOrComma]) (l @ '' $'' @ v @ rest) = Some v"
  using assms by (intro value_line) (auto simp: value_shape_def)

lemma value_shape_strip: "value_shape v \<Longrightarrow> py_strip v = v"
  unfolding value_shape_def
proof (elim disjE conjE)
  assume "v \<noteq> []" "list_all (in_class DigitOrComma) v"
  then show ?thesis by (rule strip_no_space_class) (auto simp: py_isspace_def py_isdigit_def)
qed (simp add: py_strip_NA)

section \<open>Properties\<close>

text \<open>
  C10: printing a well-formed record whose values hold no field label and parsing the
  text with \<^verbatim>\<open>parse_report\<close> gives the record back: every pattern finds its
  own line and captures exactly the value, and every field left out of the text
  comes back as \<^verbatim>\<open>"N/A"\<close>.
\<close>

theorem parse_render_roundtrip:
  assumes ok: "report_ok r"
  shows "parse_report (render_report r) = r"
proof -
  from ok have sh: "id_shape (property_id r)" "text_shape (location r)" "year_shape (year_built r)"
    "text_shape (condition r)" "value_shape (estimated_value r)" "text_shape (hazards r)"
    by (simp_all add: report_ok_def)
  have "extract_field (render_report r) pat_property_id ''N/A'' = property_id r"
    unfolding pat_property_id_def
    by (rule extract_report_nth [OF ok, of 0])
       (simp add: report_fields_def, simp add: report_fields_def, rule id_shape_line [OF sh(1)], assumption+,
        rule id_shape_strip [OF sh(1)])
  moreover have "extract_field (render_report r) pat_location ''N/A'' = location r"
    unfolding pat_location_def
    by (rule extract_report_nth [OF ok, of 1])
       (simp add: report_fields_def, simp add: report_fields_def, rule text_shape_line [OF sh(2)], assumption+,
        rule text_shape_strip [OF sh(2)])
  moreover have "extract_field (render_report r) pat_year_built ''N/A'' = year_built r"
    unfolding pat_year_built_def
    by (rule extract_report_nth [OF ok, of 2])
       (simp add: report_fields_def, simp add: report_fields_def, rule year_shape_line [OF sh(3)], assumption+,
        rule year_shape_strip [OF sh(3)])
  moreover have "extract_field (render_report r) pat_condition ''N/A'' = condition r"
    unfolding pat_condition_def
    by (rule extract_report_nth [OF ok, of 3])
       (simp add: report_fields_def, simp add: report_fields_def, rule text_shape_line [OF sh(4)], assumption+,
        rule text_shape_strip [OF sh(4)])
  moreover have "extract_field (render_report r) pat_estimated_value ''N/A'' = estimated_value r"
    unfolding pat_estimated_value_def
    by (rule extract_report_nth [OF ok, of 4])
       (simp add: report_fields_def, simp add: report_fields_def, rule value_shape_line [OF sh(5)], assumption+,
        rule value_shape_strip [OF sh(5)])
  moreover have "extract_field (render_report r) pat_hazards ''N/A'' = hazards r"
    unfolding pat_hazards_def
    by (rule extract_report_nth [OF ok, of 5])
       (simp add: report_fields_def, simp add: report_fields_def, rule text_shape_line [OF sh(6)], assumption+,
        rule text_shape_strip [OF sh(6)])
  ultimately show ?thesis by (simp add: parse_report_def)
qed

theorem parse_render_roundtrip_witness:
  "report_ok \<lparr>property_id = ''42'', location = ''1 Main St'', year_built = ''1985'',
      condition = ''Water damage observed'', estimated_value = ''N/A'', hazards = ''Flood zone''\<rparr> \<and>
   parse_report (render_report \<lparr>property_id = ''42'', location = ''1 Main St'', year_built = ''1985'',
      condition = ''Water damage observed'', estimated_value = ''N/A'', hazards = ''Flood zone''\<rparr>) =
     \<lparr>property_id = ''42'', location = ''1 Main St'', year_built = ''1985'',
      condition = ''Water damage observed'', estimated_value = ''N/A'', hazards = ''Flood zone''\<rparr>"
proof -
  have ok: "report_ok \<lparr>property_id = ''42'', location = ''1 Main St'', year_built = ''1985'',
      condition = ''Water damage observed'', estimated_value = ''N/A'', hazards = ''Flood zone''\<rparr>"
    by (simp add: report_ok_def id_shape_def year_shape_def value_shape_def text_shape_def line_shape_def
        label_free_def field_labels_def py_eval)
  show ?thesis using ok parse_render_roundtrip [OF ok] by simp
qed

end
