(* ===== verification/Spec2Isabelle.thy ===== *)
theory Spec2Isabelle
  imports Pipeline ReportRender
begin

text \<open>
  \<^bold>\<open>A verified model of the automated underwriting script.\<close>

  The repository's program is one Python file, \<^verbatim>\<open>src/app.py\<close>. Its main
  block reads a file of free-text property inspection reports separated by the
  line \<^verbatim>\<open>---\<close>, extracts six fields from each report with regular
  expressions, scores each report with three text rules, scans a directory of site
  photos with OCR and scores the recognised text with two keyword rules, matches
  each report to the photo whose file name contains the report's Property ID, adds
  the two scores and classifies the total into a risk level and an underwriting
  decision, and writes the rows to a CSV file.

  \<^bold>\<open>Theories and what they model.\<close>
  \<^item> \<open>Prelude\<close>: the exceptions the script can raise (\<open>py_error\<close>), the result
    type \<open>'a py_result\<close> (\<open>Inl\<close> is a raised exception), the two loop shapes of
    the script as combinators (\<open>map_result\<close> and \<open>append_loop\<close>: a
    \<^verbatim>\<open>for\<close> loop appending to a list, stopped by the first exception), the
    \<open>py_eval\<close> collection that lets \<open>simp\<close> run the model on literals, and list
    lemmas shared by the components.
  \<^item> \<open>PyString\<close>: the Python string operations the script calls, on strings of
    code points below 256: \<^verbatim>\<open>isspace\<close> and the regex classes,
    \<^verbatim>\<open>lower\<close>, \<^verbatim>\<open>strip\<close>, \<^verbatim>\<open>split\<close> (\<open>split_acc\<close>, with its
    termination measure), \<^verbatim>\<open>join\<close> and \<^verbatim>\<open>int()\<close> with its
    \<open>ValueError\<close>. Lemmas: strip leaves no whitespace at either end and is
    idempotent; joining the pieces of a split gives the input back and no piece holds
    the separator; \<^verbatim>\<open>int()\<close> of a digit string is its decimal value,
    bounded by \<open>10 ^ length\<close>.
  \<^item> \<open>Regex\<close>: the fragment of \<^verbatim>\<open>re\<close> the six patterns use (literals under
    \<^verbatim>\<open>IGNORECASE\<close>, \<^verbatim>\<open>c?\<close>, greedy \<^verbatim>\<open>*\<close> and \<^verbatim>\<open>+\<close>,
    \<^verbatim>\<open>{n}\<close>, one capture group at the end) as a backtracking matcher that
    lists the alternatives in the engine's order, and \<^verbatim>\<open>re.search\<close> as the
    first match from the left. Lemmas: \<open>re_search\<close> returns the match at the least
    start position; a \<^verbatim>\<open>+\<close> group captures a non-empty run of its class,
    a \<^verbatim>\<open>{n}\<close> group exactly n characters of it; text without a pattern's
    label is skipped by the search, and at the label the first alternative of each
    item fixes the group (\<open>match_at_label\<close>).
  \<^item> \<open>ReportParser\<close>: \<^verbatim>\<open>load_reports\<close> (lines 16-18) on the file contents,
    and \<^verbatim>\<open>parse_report\<close> with its inner \<^verbatim>\<open>extract\<close> (lines 50-62,
    \<open>extract_field\<close>, renamed because \<open>extract\<close> is an Isabelle command) and
    its six patterns; the returned dictionary is the record \<open>property_record\<close>.
  \<^item> \<open>ReportRender\<close>: a printer of reports in the specification's format
    (not code of the program) and the round trip \<open>parse_report (render_report r) = r\<close>
    for the records whose values have the captured shapes and hold no label.
  \<^item> \<open>TextRisk\<close>: \<^verbatim>\<open>score_risk\<close> (lines 65-82) and its closed form, the sum
    of the weights and the list of reasons of the rules that hold.
  \<^item> \<open>Classify\<close>: \<^verbatim>\<open>classify_risk\<close> (lines 84-90); the string pairs it
    returns are constructors of \<open>risk_level\<close> and \<open>decision\<close>, risk levels are
    ordered by a \<open>linorder\<close> instance.
  \<^item> \<open>Images\<close>: \<^verbatim>\<open>analyze_images\<close> (lines 20-44). The directory listing is
    an input list in \<^verbatim>\<open>os.listdir\<close> order; \<^verbatim>\<open>cv2.imread\<close> followed by
    \<^verbatim>\<open>pytesseract.image_to_string\<close> is an injected function \<open>ocr_engine\<close>
    from a file name to its text or the exception raised.
  \<^item> \<open>Pipeline\<close>: the main block (lines 97-138) as \<open>main_run\<close>: file
    contents, listing and OCR engine in, the final rows or the exception out. The
    dictionary's growth is record extension (\<open>property_record\<close>, then
    \<open>scored_report\<close>, then \<open>final_row\<close>, fields in CSV column order). The
    DataFrame lookup, \<^verbatim>\<open>str.contains\<close>, \<^verbatim>\<open>squeeze\<close> and the two
    branches are \<open>matching_rows\<close> and \<open>combine_row\<close>.

  \<^bold>\<open>What is proved.\<close> Per component: the functional behaviour on every branch,
  exceptions included (\<open>classify_risk_spec\<close>, \<open>score_risk_spec\<close>,
  \<open>combine_row_single_match\<close>, \<open>combine_row_no_match\<close>,
  \<open>combine_row_ambiguous\<close>); the type invariant of the extractor
  (\<open>parse_report_wf\<close>) and the closed form of its Location field on any text
  (\<open>parse_report_location\<close>); the round trip of the extractor with a printer
  (\<open>parse_render_roundtrip\<close>); refinement of the image loop by a map over the
  supported files (\<open>analyze_images_map\<close>), which reads no other file
  (\<open>analyze_images_reads_supported_only\<close>); monotonicity of the classifier. Across
  components (\<open>Pipeline\<close> and this theory): every row of a run corresponds to its
  report, in order, with consistent scores and classification (\<open>main_run_rows\<close>);
  its image columns come from one scanned file whose name contains the id, or are
  the defaults (\<open>main_run_image_columns\<close>); its scores are bounded, the total by 14
  (\<open>main_run_total_bounds\<close>); the exact condition under which a run returns
  (\<open>main_run_succeeds_iff\<close>), and which exception each failure raises, scoring
  coming before image reading.

  \<^bold>\<open>Bounds and fuel.\<close> No loop of the script can run forever: every loop is
  over a finite list and is structural recursion, and \<open>split_acc\<close> terminates by
  the length of the unread input. No fuel is used. Python integers are unbounded
  and are modelled as \<open>int\<close>; scores stay below 15, so width never matters.

  \<^bold>\<open>Not modelled.\<close> File and directory I/O (the file contents and the listing
  are inputs); OCR quality (the engine is a parameter); the NER helper
  \<^verbatim>\<open>extract_text_entities\<close>, which the main block never calls; the CSV
  writing and printing. Characters are code points below 256: the Unicode cases of
  \<^verbatim>\<open>lower\<close>, \<^verbatim>\<open>\s\<close> and \<^verbatim>\<open>\d\<close> above that range are outside the
  model. \<^verbatim>\<open>str.contains\<close> is a substring test, which is what it computes for
  the ids \<^verbatim>\<open>parse_report\<close> yields (digits or \<^verbatim>\<open>N/A\<close>, no regex
  metacharacter).

  \<^bold>\<open>Not yet modelled.\<close> The CSV text that \<^verbatim>\<open>to_csv\<close> writes for the
  rows (quoting of the recognised text, which may hold commas and newlines).
\<close>

section \<open>Properties of a whole run\<close>

text \<open>
  C16: in every row of a run that returns, the image columns are either the
  defaults (file \<^verbatim>\<open>"N/A"\<close>, empty text and reasons, score 0), and then no
  supported file of the listing has the report's id in its name, or they are the
  scan of one supported file of the listing whose name contains the report's id:
  its recognised text, and the score and reasons of the two keyword rules on it.
\<close>

theorem main_run_image_columns:
  assumes "main_run report_file listing ocr = Inr rows"
  shows "list_all (\<lambda>row.
     (row_image_file row = ''N/A'' \<and> row_image_ocr_text row = [] \<and> row_image_risk_score row = 0 \<and>
      row_image_risk_factors row = [] \<and>
      (\<forall>f\<in>set listing. supported_image f \<longrightarrow> \<not> sublist (property_id row) f)) \<or>
     (row_image_file row \<in> set listing \<and> supported_image (row_image_file row) \<and>
      sublist (property_id row) (row_image_file row) \<and>
      ocr (row_image_file row) = Inr (row_image_ocr_text row) \<and>
      row_image_risk_score row = fst (image_risk (row_image_ocr_text row)) \<and>
      row_image_risk_factors row = py_join '', '' (snd (image_risk (row_image_ocr_text row))))) rows"
proof -
  from assms obtain image_results where im: "analyze_images ocr listing = Inr image_results"
    and src: "list_all (\<lambda>row. \<exists>t r. score_report t = Inr r \<and> combine_row image_results r = Inr row) rows"
    by (rule main_run_row_sources)
  have files: "map image_file image_results = filter supported_image listing"
    using im by (rule analyze_images_files)
  show ?thesis unfolding list_all_iff
  proof
    fix row
    assume "row \<in> set rows"
    with src obtain r where cb: "combine_row image_results r = Inr row" by (auto simp: list_all_iff)
    note facts = combine_row_image [OF cb]
    from facts have pid: "property_id row = property_id r" by simp
    from facts consider
        (none) "row_image_file row = ''N/A''" "row_image_ocr_text row = []" "row_image_risk_score row = 0"
          "row_image_risk_factors row = []" "filter (contains_id (property_id r)) image_results = []"
      | (one) m where "m \<in> set image_results" "contains_id (property_id r) m"
          "row_image_file row = image_file m" "row_image_ocr_text row = ocr_text m"
          "row_image_risk_score row = image_risk_score m" "row_image_risk_factors row = image_risk_factors m"
      by blast
    then show "(row_image_file row = ''N/A'' \<and> row_image_ocr_text row = [] \<and> row_image_risk_score row = 0 \<and>
      row_image_risk_factors row = [] \<and>
      (\<forall>f\<in>set listing. supported_image f \<longrightarrow> \<not> sublist (property_id row) f)) \<or>
     (row_image_file row \<in> set listing \<and> supported_image (row_image_file row) \<and>
      sublist (property_id row) (row_image_file row) \<and>
      ocr (row_image_file row) = Inr (row_image_ocr_text row) \<and>
      row_image_risk_score row = fst (image_risk (row_image_ocr_text row)) \<and>
      row_image_risk_factors row = py_join '', '' (snd (image_risk (row_image_ocr_text row))))"
    proof cases
      case none
      have "length (filter (sublist (property_id r)) (filter supported_image listing)) = 0"
        using length_filter_contains_id [OF files, of "property_id r"] none(5) by simp
      then have "\<forall>f\<in>set listing. supported_image f \<longrightarrow> \<not> sublist (property_id r) f"
        by (auto simp: filter_empty_conv)
      with none pid show ?thesis by simp
    next
      case (one m)
      from analyze_images_mem [OF im one(1)]
      have "image_file m \<in> set listing" "supported_image (image_file m)"
        and sc: "scan_image ocr (image_file m) = Inr m" by simp_all
      moreover have "ocr (image_file m) = Inr (ocr_text m)"
        "(image_risk_score m, image_risk_factors m) =
           (fst (image_risk (ocr_text m)), py_join '', '' (snd (image_risk (ocr_text m))))"
        using scan_image_Inr [OF sc] by simp_all
      ultimately show ?thesis using one pid by (simp add: contains_id_def)
    qed
  qed
qed

text \<open>
  C17: the scores of every row of a run are bounded: the text score is one of
  0, 2, 3, 4, 5, 6, 7, 9, the image score one of 0, 2, 3, 5, and the total lies
  between 0 and 14.
\<close>

theorem main_run_total_bounds:
  assumes "main_run report_file listing ocr = Inr rows"
  shows "list_all (\<lambda>row. risk_score row \<in> {0, 2, 3, 4, 5, 6, 7, 9} \<and>
     row_image_risk_score row \<in> {0, 2, 3, 5} \<and> 0 \<le> total_risk_score row \<and> total_risk_score row \<le> 14) rows"
proof -
  from assms obtain image_results where im: "analyze_images ocr listing = Inr image_results"
    and src: "list_all (\<lambda>row. \<exists>t r. score_report t = Inr r \<and> combine_row image_results r = Inr row) rows"
    by (rule main_run_row_sources)
  show ?thesis unfolding list_all_iff
  proof
    fix row
    assume "row \<in> set rows"
    with src obtain t r where sr: "score_report t = Inr r" and cb: "combine_row image_results r = Inr row"
      by (auto simp: list_all_iff)
    from sr have sc: "score_risk (parse_report t) = Inr (risk_score r, risk_factors r)"
      by (simp add: score_report_Inr)
    have tsc: "risk_score r \<in> {0, 2, 3, 4, 5, 6, 7, 9}"
    proof (cases "py_int (year_built (parse_report t))")
      case (Inl e)
      with sc show ?thesis by (simp add: score_risk_Inl)
    next
      case (Inr y)
      with sc have "risk_score r = text_score (parse_report t) y" by (simp add: score_risk_Inr)
      with text_score_cases [of "parse_report t" y] show ?thesis by simp
    qed
    note facts = combine_row_image [OF cb]
    have img: "row_image_risk_score row \<in> {0, 2, 3, 5}"
    proof -
      from facts consider "row_image_risk_score row = 0"
        | m where "m \<in> set image_results" "row_image_risk_score row = image_risk_score m"
        by blast
      then show ?thesis
      proof cases
        case (2 m)
        from analyze_images_mem [OF im 2(1)] have "scan_image ocr (image_file m) = Inr m" by simp
        then have "image_risk_score m = fst (image_risk (ocr_text m))" using scan_image_Inr by blast
        with 2 image_risk_score_cases show ?thesis by simp
      qed simp
    qed
    have "total_risk_score row = risk_score row + row_image_risk_score row"
      using combine_row_consistent [OF sr cb] by (simp add: row_consistent_def)
    moreover have "risk_score row = risk_score r" using facts by simp
    ultimately show "risk_score row \<in> {0, 2, 3, 4, 5, 6, 7, 9} \<and> row_image_risk_score row \<in> {0, 2, 3, 5} \<and>
        0 \<le> total_risk_score row \<and> total_risk_score row \<le> 14"
      using tsc img by auto
  qed
qed

section \<open>A run of the specification's reconciliation example\<close>

text \<open>The report with id 1023 and the photos 1023_front.jpg and 9999.png: the report
  is matched to 1023_front.jpg only, and its total is its text score (4, flood)
  plus that photo's score (3, crack).\<close>

lemma reconcile_run:
  "main_run ''Property ID: 1023\<newline>Year Built: 2010\<newline>Hazards: flood plain''
     [''1023_front.jpg'', ''9999.png'']
     (\<lambda>f. if f = ''1023_front.jpg'' then Inr ''crack in wall'' else Inr []) =
   Inr [\<lparr>property_id = ''1023'', location = ''N/A'', year_built = ''2010'',
         condition = ''N/A'', estimated_value = ''N/A'', hazards = ''flood plain'',
         risk_score = 4, risk_factors = ''Flood risk'',
         row_image_file = ''1023_front.jpg'', row_image_ocr_text = ''crack in wall'',
         row_image_risk_score = 3, row_image_risk_factors = ''Cracks detected'',
         total_risk_score = 7, row_risk_level = High, underwriting_decision = Reject\<rparr>]"
  by (simp add: py_eval)

theorem main_run_image_columns_witness:
  "main_run ''Property ID: 1023\<newline>Year Built: 2010\<newline>Hazards: flood plain''
     [''1023_front.jpg'', ''9999.png'']
     (\<lambda>f. if f = ''1023_front.jpg'' then Inr ''crack in wall'' else Inr []) =
   Inr [\<lparr>property_id = ''1023'', location = ''N/A'', year_built = ''2010'',
         condition = ''N/A'', estimated_value = ''N/A'', hazards = ''flood plain'',
         risk_score = 4, risk_factors = ''Flood risk'',
         row_image_file = ''1023_front.jpg'', row_image_ocr_text = ''crack in wall'',
         row_image_risk_score = 3, row_image_risk_factors = ''Cracks detected'',
         total_risk_score = 7, row_risk_level = High, underwriting_decision = Reject\<rparr>] \<and>
   sublist ''1023'' ''1023_front.jpg'' \<and> supported_image ''1023_front.jpg''"
proof -
  note cols = main_run_image_columns [OF reconcile_run]
  have "sublist ''1023'' ''1023_front.jpg'' \<and> supported_image ''1023_front.jpg''"
    using cols by simp
  with reconcile_run show ?thesis by simp
qed

theorem main_run_total_bounds_witness:
  "main_run ''Property ID: 1023\<newline>Year Built: 2010\<newline>Hazards: flood plain''
     [''1023_front.jpg'', ''9999.png'']
     (\<lambda>f. if f = ''1023_front.jpg'' then Inr ''crack in wall'' else Inr []) =
   Inr [\<lparr>property_id = ''1023'', location = ''N/A'', year_built = ''2010'',
         condition = ''N/A'', estimated_value = ''N/A'', hazards = ''flood plain'',
         risk_score = 4, risk_factors = ''Flood risk'',
         row_image_file = ''1023_front.jpg'', row_image_ocr_text = ''crack in wall'',
         row_image_risk_score = 3, row_image_risk_factors = ''Cracks detected'',
         total_risk_score = 7, row_risk_level = High, underwriting_decision = Reject\<rparr>] \<and>
   (0::int) \<le> 7 \<and> (7::int) \<le> 14"
proof -
  note bounds = main_run_total_bounds [OF reconcile_run]
  from bounds have "(0::int) \<le> 7 \<and> (7::int) \<le> 14" by simp
  with reconcile_run show ?thesis by simp
qed

end
